theory Spec2Isabelle
  imports Complex_Main "HOL-Library.Char_ord" "HOL-Library.List_Lexorder"
begin

section \<open>Python and numpy primitives used by d4\_generation.py\<close>

text \<open>
  Exceptions are values: every function of the source that can raise returns
  \<open>py_error + 'a\<close>, with \<open>Inl\<close> for the exception.
\<close>

datatype py_error = IndexError | ValueError | KeyError | TypeError | ZeroDivisionError
  | ExternalError

text \<open>
  \<^verbatim>\<open>s.split(",")\<close>: the fields between commas; the empty string has the single
  field \<^verbatim>\<open>""\<close>. A Python string is a \<open>string\<close> here; numpy compares the
  elements of a string array code point by code point, a proper prefix being smaller,
  which is the lexicographic order of \<open>char list\<close>.
\<close>

fun split_comma :: "string \<Rightarrow> string list" where
  "split_comma [] = [[]]"
| "split_comma (c # cs) =
     (if c = CHR '','' then [] # split_comma cs
      else (case split_comma cs of
              [] \<Rightarrow> [[c]]
            | t # ts \<Rightarrow> (c # t) # ts))"

text \<open>\<^verbatim>\<open>",".join(xs)\<close>\<close>

fun join_comma :: "string list \<Rightarrow> string" where
  "join_comma [] = []"
| "join_comma [t] = t"
| "join_comma (t # u # ts) = t @ CHR '','' # join_comma (u # ts)"

text \<open>\<^verbatim>\<open>np.sort\<close> of a one-dimensional array: ascending order.\<close>

definition np_sort :: "'a::linorder list \<Rightarrow> 'a list" where
  "np_sort xs = sort xs"

text \<open>
  \<^verbatim>\<open>np.unique(xs)\<close>: numpy sorts the array and keeps the first element of every
  run of equal neighbours.
\<close>

definition np_unique :: "'a::linorder list \<Rightarrow> 'a list" where
  "np_unique xs = remdups_adj (sort xs)"

text \<open>
  The second result of \<^verbatim>\<open>np.unique(xs, return_index=True)\<close>: for every unique
  value, in ascending order of the values, the index of its first occurrence in
  \<open>xs\<close>.
\<close>

definition first_index :: "'a list \<Rightarrow> 'a \<Rightarrow> nat" where
  "first_index xs v = length (takeWhile (\<lambda>x. x \<noteq> v) xs)"

definition np_unique_index :: "'a::linorder list \<Rightarrow> nat list" where
  "np_unique_index xs = map (first_index xs) (np_unique xs)"

text \<open>
  \<^verbatim>\<open>xs[inds]\<close> with an integer index array (fancy indexing): a new array; an
  index out of range raises IndexError. The index arrays of this program hold
  non-negative indices only.
\<close>

definition np_take :: "'a list \<Rightarrow> nat list \<Rightarrow> py_error + 'a list" where
  "np_take xs inds =
     (if \<forall>i \<in> set inds. i < length xs then Inr (map (\<lambda>i. xs ! i) inds)
      else Inl IndexError)"

text \<open>
  \<^verbatim>\<open>xs + ys\<close> on one-dimensional arrays: element by element; an array of
  length one is broadcast against the other; any other pair of different lengths
  raises ValueError.
\<close>

definition np_add :: "'a::plus list \<Rightarrow> 'a list \<Rightarrow> py_error + 'a list" where
  "np_add xs ys =
     (if length xs = length ys then Inr (map (\<lambda>(x, y). x + y) (zip xs ys))
      else if length xs = 1 then Inr (map (\<lambda>y. hd xs + y) ys)
      else if length ys = 1 then Inr (map (\<lambda>x. x + hd ys) xs)
      else Inl ValueError)"

text \<open>
  \<^verbatim>\<open>np.delete(xs, to_del)\<close> with a list of indices: a new array without the
  elements at these positions; an index out of range raises IndexError.
\<close>

definition np_delete :: "'a list \<Rightarrow> nat list \<Rightarrow> py_error + 'a list" where
  "np_delete xs to_del =
     (if \<forall>i \<in> set to_del. i < length xs
      then Inr (map fst (filter (\<lambda>(x, i). i \<notin> set to_del) (zip xs [0..<length xs])))
      else Inl IndexError)"


section \<open>The augmentation engine: augment\<close>

text \<open>
  The body of the inner loop
  \<^verbatim>\<open>for cj, (j, k) in enumerate(zip(data, data[pos_inds]))\<close>.
  \<open>pos_new_data j k\<close> is the sorted token list of the candidate; the candidate is
  marked for deletion when its number of distinct tokens differs from
  \<^verbatim>\<open>new_mutations[cj]\<close>. Mutation counts are integers (numpy's 64-bit
  integers, far from their bounds for counts of mutations).
\<close>

definition pos_new_data :: "string \<Rightarrow> string \<Rightarrow> string list" where
  "pos_new_data j k = np_sort (split_comma j @ split_comma k)"

fun pair_loop ::
  "int list \<Rightarrow> nat \<Rightarrow> (string \<times> string) list \<Rightarrow> string list \<Rightarrow> nat list
    \<Rightarrow> py_error + (string list \<times> nat list)" where
  "pair_loop new_mutations cj [] new_data to_del = Inr (new_data, to_del)"
| "pair_loop new_mutations cj ((j, k) # rest) new_data to_del =
     (if cj < length new_mutations
      then pair_loop new_mutations (Suc cj) rest
             (new_data @ [join_comma (pos_new_data j k)])
             (if int (length (np_unique (pos_new_data j k))) \<noteq> new_mutations ! cj
              then to_del @ [cj] else to_del)
      else Inl IndexError)"

text \<open>
  One iteration of \<^verbatim>\<open>for i in range(runs)\<close>, after
  \<^verbatim>\<open>np.random.shuffle(pos_inds)\<close> has left \<open>pos_inds\<close> in the array: the
  three arrays of the candidates that survive the deletion.
\<close>

definition augment_run ::
  "string list \<Rightarrow> 'l::plus list \<Rightarrow> int list \<Rightarrow> nat list
    \<Rightarrow> py_error + (string list \<times> 'l list \<times> int list)" where
  "augment_run data labels mutations pos_inds =
     (case np_take labels pos_inds of Inl e \<Rightarrow> Inl e | Inr lp \<Rightarrow>
      case np_add labels lp of Inl e \<Rightarrow> Inl e | Inr new_labels \<Rightarrow>
      case np_take mutations pos_inds of Inl e \<Rightarrow> Inl e | Inr mp \<Rightarrow>
      case np_add mutations mp of Inl e \<Rightarrow> Inl e | Inr new_mutations \<Rightarrow>
      case np_take data pos_inds of Inl e \<Rightarrow> Inl e | Inr dp \<Rightarrow>
      case pair_loop new_mutations 0 (zip data dp) [] [] of Inl e \<Rightarrow> Inl e
      | Inr (new_data, to_del) \<Rightarrow>
      case np_delete new_labels to_del of Inl e \<Rightarrow> Inl e | Inr new_labels' \<Rightarrow>
      case np_delete new_mutations to_del of Inl e \<Rightarrow> Inl e | Inr new_mutations' \<Rightarrow>
      case np_delete new_data to_del of Inl e \<Rightarrow> Inl e | Inr new_data' \<Rightarrow>
      Inr (new_data', new_labels', new_mutations'))"

text \<open>
  The loop over the runs. The random generator is a parameter: \<open>rng\<close> lists,
  run by run, the content of \<open>pos_inds\<close> after the shuffle of that run. The
  accumulators are the lists \<open>nd\<close>, \<open>nl\<close> and \<open>nm\<close>.
\<close>

fun runs_loop ::
  "string list \<Rightarrow> 'l::plus list \<Rightarrow> int list \<Rightarrow> nat list list
    \<Rightarrow> string list \<Rightarrow> 'l list \<Rightarrow> int list
    \<Rightarrow> py_error + (string list \<times> 'l list \<times> int list)" where
  "runs_loop data labels mutations [] nd nl nm = Inr (nd, nl, nm)"
| "runs_loop data labels mutations (pos_inds # later) nd nl nm =
     (case augment_run data labels mutations pos_inds of
        Inl e \<Rightarrow> Inl e
      | Inr (new_data, new_labels, new_mutations) \<Rightarrow>
          runs_loop data labels mutations later
            (nd @ new_data) (nl @ new_labels) (nm @ new_mutations))"

text \<open>
  \<open>augment data labels mutations runs un rng\<close>: \<open>rng r\<close> is the outcome
  of the shuffle of run \<open>r\<close>. \<^verbatim>\<open>range(runs)\<close> is empty for a negative \<open>runs\<close>.
\<close>

definition augment ::
  "string list \<Rightarrow> 'l::plus list \<Rightarrow> int list \<Rightarrow> int \<Rightarrow> bool \<Rightarrow> (nat \<Rightarrow> nat list)
    \<Rightarrow> py_error + (string list \<times> 'l list \<times> int list)" where
  "augment data labels mutations runs un rng =
     (case runs_loop data labels mutations (map rng [0..<nat runs]) [] [] [] of
        Inl e \<Rightarrow> Inl e
      | Inr (nd, nl, nm) \<Rightarrow>
          if un then
            (let uni = np_unique_index nd in
             case np_take nd uni of Inl e \<Rightarrow> Inl e | Inr nd' \<Rightarrow>
             case np_take nl uni of Inl e \<Rightarrow> Inl e | Inr nl' \<Rightarrow>
             case np_take nm uni of Inl e \<Rightarrow> Inl e | Inr nm' \<Rightarrow>
             Inr (nd', nl', nm'))
          else Inr (nd, nl, nm))"

text \<open>
  A shuffle of \<^verbatim>\<open>np.arange(n)\<close> leaves a permutation of \<open>0, ..., n - 1\<close>.
\<close>

definition is_shuffle :: "nat \<Rightarrow> nat list \<Rightarrow> bool" where
  "is_shuffle n p = (sort p = [0..<n])"

text \<open>
  The test of the inner loop for row \<open>c\<close>, negated (the candidate stays), and the
  candidates that one run keeps, as triples of variant string, label and mutation
  count: the arrays that \<open>augment_run\<close> returns, read row by row.
\<close>

definition accepted :: "string list \<Rightarrow> int list \<Rightarrow> nat list \<Rightarrow> nat \<Rightarrow> bool" where
  "accepted data mutations pos_inds c =
     (int (length (np_unique (pos_new_data (data ! c) (data ! (pos_inds ! c)))))
        = mutations ! c + mutations ! (pos_inds ! c))"

definition candidates ::
  "string list \<Rightarrow> 'l::plus list \<Rightarrow> int list \<Rightarrow> nat list \<Rightarrow> (string \<times> 'l \<times> int) list" where
  "candidates data labels mutations pos_inds =
     map (\<lambda>c. (join_comma (pos_new_data (data ! c) (data ! (pos_inds ! c))),
                labels ! c + labels ! (pos_inds ! c),
                mutations ! c + mutations ! (pos_inds ! c)))
         (filter (accepted data mutations pos_inds) [0..<length data])"

text \<open>
  All the candidates accumulated in \<open>nd\<close>, \<open>nl\<close> and \<open>nm\<close> by the runs, row by
  row.
\<close>

definition accumulated ::
  "string list \<Rightarrow> 'l::plus list \<Rightarrow> int list \<Rightarrow> int \<Rightarrow> (nat \<Rightarrow> nat list)
    \<Rightarrow> (string \<times> 'l \<times> int) list" where
  "accumulated data labels mutations runs rng =
     concat (map (candidates data labels mutations) (map rng [0..<nat runs]))"


section \<open>The wild-type encoder: data\_generator\_vals\<close>

text \<open>
  The property tables are data of the separate module \<^verbatim>\<open>d4_utils\<close>: they are a
  parameter. A Python dictionary is an association list
  with distinct keys; \<^verbatim>\<open>d.get(k)\<close> is \<open>map_of d k\<close>, with \<open>None\<close> for a missing
  key, and \<^verbatim>\<open>d.values()\<close> is \<open>map snd d\<close>. Floating-point numbers are real
  numbers here.
\<close>

record property_tables =
  hydrophobicity :: "(char \<times> real) list"
  h_bonding :: "(char \<times> int) list"
  charge :: "(char \<times> int) list"
  sasa :: "(char \<times> int) list"
  side_chain_length :: "(char \<times> real) list"
  aa_dict_pos :: "(char \<times> int) list"

text \<open>\<^verbatim>\<open>max(xs)\<close> and \<^verbatim>\<open>min(xs)\<close>: ValueError on an empty sequence.\<close>

definition py_max :: "'a::linorder list \<Rightarrow> py_error + 'a" where
  "py_max xs = (case xs of [] \<Rightarrow> Inl ValueError | x # rest \<Rightarrow> Inr (fold max rest x))"

definition py_min :: "'a::linorder list \<Rightarrow> py_error + 'a" where
  "py_min xs = (case xs of [] \<Rightarrow> Inl ValueError | x # rest \<Rightarrow> Inr (fold min rest x))"

text \<open>
  Matrices are lists of rows. \<^verbatim>\<open>np.arange(n * n).reshape(n, n) / d\<close>,
  \<^verbatim>\<open>np.triu\<close>, the transpose \<^verbatim>\<open>.T\<close>, \<^verbatim>\<open>np.diag\<close> of a matrix (its
  diagonal) and of a vector (the diagonal matrix), the sum and the difference of two
  matrices of one shape, and \<^verbatim>\<open>np.fill_diagonal\<close>.
\<close>

definition np_arange_grid :: "nat \<Rightarrow> real \<Rightarrow> real list list" where
  "np_arange_grid n d = map (\<lambda>i. map (\<lambda>j. real (i * n + j) / d) [0..<n]) [0..<n]"

definition np_triu :: "real list list \<Rightarrow> real list list" where
  "np_triu m = map (\<lambda>i. map (\<lambda>j. if i \<le> j then m ! i ! j else 0) [0..<length (m ! i)])
                   [0..<length m]"

definition ncols :: "'a list list \<Rightarrow> nat" where
  "ncols m = (case m of [] \<Rightarrow> 0 | row # _ \<Rightarrow> length row)"

definition np_T :: "real list list \<Rightarrow> real list list" where
  "np_T m = map (\<lambda>j. map (\<lambda>row. row ! j) m) [0..<ncols m]"

definition np_diag_of :: "real list list \<Rightarrow> real list" where
  "np_diag_of m = map (\<lambda>i. m ! i ! i) [0..<min (length m) (ncols m)]"

definition np_diag :: "real list \<Rightarrow> real list list" where
  "np_diag v = map (\<lambda>i. map (\<lambda>j. if i = j then v ! i else 0) [0..<length v]) [0..<length v]"

definition mat_add :: "real list list \<Rightarrow> real list list \<Rightarrow> real list list" where
  "mat_add a b = map (\<lambda>(r, s). map (\<lambda>(x, y). x + y) (zip r s)) (zip a b)"

definition mat_sub :: "real list list \<Rightarrow> real list list \<Rightarrow> real list list" where
  "mat_sub a b = map (\<lambda>(r, s). map (\<lambda>(x, y). x - y) (zip r s)) (zip a b)"

definition np_fill_diagonal :: "real list list \<Rightarrow> real \<Rightarrow> real list list" where
  "np_fill_diagonal m v = map (\<lambda>(i, row). row[i := v]) (enumerate 0 m)"

text \<open>
  The index matrix of a sequence of length \<open>wt_len\<close>, as the last lines of
  \<^verbatim>\<open>data_generator_vals\<close> build it. For \<open>wt_len = 1\<close> numpy divides by zero and
  the single entry is not a number until \<^verbatim>\<open>np.fill_diagonal\<close> overwrites it with
  0; the division of \<open>real\<close> gives 0 there, overwritten as well.
\<close>

definition index_matrix :: "nat \<Rightarrow> real list list" where
  "index_matrix wt_len =
     (let mat_size = int wt_len * int wt_len;
          pre_mat_index = np_arange_grid wt_len (real_of_int (mat_size - 1));
          pre_mat_index = np_triu pre_mat_index;
          mat_index = mat_sub (mat_add pre_mat_index (np_T pre_mat_index))
                              (np_diag (np_diag_of pre_mat_index))
      in np_fill_diagonal mat_index 0)"

record ('ct, 'cr) generator_vals =
  hm_pos_vals :: "int list"
  hp_norm :: real
  ia_norm :: int
  hm_converted :: "int option list"
  hp_converted :: "real option list"
  cm_converted :: "int option list"
  ia_converted :: "int option list"
  mat_index :: "real list list"
  cl_converted :: "real option list"
  cl_norm :: real
  co_converted :: "int option list option"
  co_table :: "'ct option"
  co_rows :: "'cr option"

text \<open>
  \<open>data_generator_vals tables alignment_table wt_seq alignment_path alignment_base\<close>.
  The loader \<^verbatim>\<open>alignment_table\<close> of \<^verbatim>\<open>d4_alignments\<close> reads a file and is a
  parameter too; it may raise.
\<close>

definition data_generator_vals ::
  "property_tables \<Rightarrow> (string \<Rightarrow> string option \<Rightarrow> py_error + ('ct \<times> 'cr))
    \<Rightarrow> string \<Rightarrow> string option \<Rightarrow> string option
    \<Rightarrow> py_error + ('ct, 'cr) generator_vals" where
  "data_generator_vals tables alignment_table wt_seq alignment_path alignment_base =
     (let h_vals = map snd (hydrophobicity tables) in
      case py_max h_vals of Inl e \<Rightarrow> Inl e | Inr h_max \<Rightarrow>
      case py_min h_vals of Inl e \<Rightarrow> Inl e | Inr h_min \<Rightarrow>
      case py_max (map snd (sasa tables)) of Inl e \<Rightarrow> Inl e | Inr s_max \<Rightarrow>
      case py_max (map snd (side_chain_length tables)) of Inl e \<Rightarrow> Inl e | Inr c_max \<Rightarrow>
      case (case alignment_path of
              None \<Rightarrow> Inr (None, None, None)
            | Some path \<Rightarrow>
                (case alignment_table path alignment_base of
                   Inl e \<Rightarrow> Inl e
                 | Inr (t, rows) \<Rightarrow>
                     Inr (Some (map (map_of (aa_dict_pos tables)) wt_seq), Some t, Some rows)))
      of Inl e \<Rightarrow> Inl e | Inr (co_c, co_t, co_r) \<Rightarrow>
      Inr \<lparr> hm_pos_vals = [2, 3, 6, 9],
            hp_norm = \<bar>h_max - h_min\<bar>,
            ia_norm = s_max * 2,
            hm_converted = map (map_of (h_bonding tables)) wt_seq,
            hp_converted = map (map_of (hydrophobicity tables)) wt_seq,
            cm_converted = map (map_of (charge tables)) wt_seq,
            ia_converted = map (map_of (sasa tables)) wt_seq,
            mat_index = index_matrix (length wt_seq),
            cl_converted = map (map_of (side_chain_length tables)) wt_seq,
            cl_norm = 2 * c_max,
            co_converted = co_c,
            co_table = co_t,
            co_rows = co_r \<rparr>)"


section \<open>The batch generator: DataGenerator\<close>

text \<open>
  The attributes of a \<^verbatim>\<open>DataGenerator\<close>, as \<^verbatim>\<open>__init__\<close> sets them, and
  \<open>idx\<close>, which exists only once \<^verbatim>\<open>on_epoch_end\<close> has run. The labels are of any
  type \<open>'l\<close>; the conservation table and its row helper are of the types the loader
  gives them. An attribute whose name is already taken in this theory has the suffix
  \<open>_g\<close>.
\<close>

record ('l, 'ct, 'cr) data_generator =
  features :: "string list"
  labels_g :: "'l list"
  interaction_matrix :: "bool list list"
  dim_g :: "int \<times> int"
  n_channels :: int
  batch_size :: int
  first_ind :: int
  hm_converted_g :: "int option list"
  hm_pos_vals_g :: "int list"
  factor :: "real list list"
  hp_converted_g :: "real option list"
  hp_norm_g :: real
  cm_converted_g :: "int option list"
  ia_converted_g :: "int option list"
  ia_norm_g :: int
  mat_index_g :: "real list list"
  cl_converted_g :: "real option list"
  cl_norm_g :: real
  dist_mat :: "real list list"
  dist_th :: real
  co_converted_g :: "int option list option"
  co_table_g :: "'ct option"
  co_rows_g :: "'cr option"
  shuffle :: bool
  train :: bool
  idx :: "nat list option"

text \<open>
  \<^verbatim>\<open>__init__\<close> stores its arguments; it has no check and no statement that can
  raise, so it always returns a generator.
\<close>

definition DataGenerator_init ::
  "string list \<Rightarrow> 'l list \<Rightarrow> bool list list \<Rightarrow> int \<times> int \<Rightarrow> int \<Rightarrow> int \<Rightarrow> int
    \<Rightarrow> int option list \<Rightarrow> int list \<Rightarrow> real list list \<Rightarrow> real option list \<Rightarrow> real
    \<Rightarrow> int option list \<Rightarrow> int option list \<Rightarrow> int \<Rightarrow> real list list
    \<Rightarrow> real option list \<Rightarrow> real \<Rightarrow> real list list \<Rightarrow> real
    \<Rightarrow> int option list option \<Rightarrow> 'ct option \<Rightarrow> 'cr option \<Rightarrow> bool \<Rightarrow> bool
    \<Rightarrow> py_error + ('l, 'ct, 'cr) data_generator" where
  "DataGenerator_init features' labels' interaction_matrix' dim' n_channels' batch_size'
       first_ind' hm_converted' hm_pos_vals' factor' hp_converted' hp_norm' cm_converted'
       ia_converted' ia_norm' mat_index' cl_converted' cl_norm' dist_mat' dist_th'
       co_converted' co_table' co_rows' shuffle' train' =
     Inr \<lparr> features = features', labels_g = labels',
           interaction_matrix = interaction_matrix', dim_g = dim',
           n_channels = n_channels', batch_size = batch_size', first_ind = first_ind',
           hm_converted_g = hm_converted', hm_pos_vals_g = hm_pos_vals', factor = factor',
           hp_converted_g = hp_converted', hp_norm_g = hp_norm',
           cm_converted_g = cm_converted', ia_converted_g = ia_converted',
           ia_norm_g = ia_norm', mat_index_g = mat_index',
           cl_converted_g = cl_converted', cl_norm_g = cl_norm',
           dist_mat = dist_mat', dist_th = dist_th',
           co_converted_g = co_converted', co_table_g = co_table', co_rows_g = co_rows',
           shuffle = shuffle', train = train', idx = None \<rparr>"

text \<open>\<^verbatim>\<open>m.shape\<close> of a two-dimensional array.\<close>

definition np_shape :: "'a list list \<Rightarrow> int \<times> int" where
  "np_shape m = (int (length m), int (ncols m))"


text \<open>
  \<^verbatim>\<open>xs[start:stop]\<close>: a negative bound counts from the end, and both bounds
  are clipped to the array.
\<close>

definition py_slice :: "'a list \<Rightarrow> int \<Rightarrow> int \<Rightarrow> 'a list" where
  "py_slice xs start stop =
     (let n = int (length xs);
          lo = (if start < 0 then max 0 (start + n) else min start n);
          hi = (if stop < 0 then max 0 (stop + n) else min stop n)
      in take (nat (hi - lo)) (drop (nat lo) xs))"

text \<open>
  \<^verbatim>\<open>__batch_variants\<close>. The kernel \<^verbatim>\<open>model_interactions\<close> belongs to the
  separate module \<^verbatim>\<open>d4_interactions\<close> and is a parameter: \<open>encode\<close> stands for its
  call on one variant with the attributes of the generator (\<open>idx\<close> is not among
  them) and the property tables, and may raise; \<open>fits d c t\<close> says that numpy can
  store the tensor \<open>t\<close> in a slot of shape \<open>d\<close> with \<open>c\<close> channels. The two arrays start from
  \<^verbatim>\<open>np.empty\<close>: a slot holds \<open>None\<close> until it is assigned.
\<close>

fun batch_loop ::
  "(string \<Rightarrow> py_error + 't) \<Rightarrow> ('t \<Rightarrow> bool) \<Rightarrow> 'l list \<Rightarrow> nat \<Rightarrow> string list
    \<Rightarrow> 't option list \<Rightarrow> 'l option list
    \<Rightarrow> py_error + ('t option list \<times> 'l option list)" where
  "batch_loop encode fit corresponding_labels ci [] batch_features batch_labels =
     Inr (batch_features, batch_labels)"
| "batch_loop encode fit corresponding_labels ci (i # rest) batch_features batch_labels =
     (case encode i of
        Inl e \<Rightarrow> Inl e
      | Inr final_matrix \<Rightarrow>
          if \<not> ci < length batch_features then Inl IndexError
          else if \<not> fit final_matrix then Inl ValueError
          else batch_loop encode fit corresponding_labels (Suc ci) rest
                 (batch_features[ci := Some final_matrix])
                 (batch_labels[ci := Some (corresponding_labels ! ci)]))"

definition batch_variants ::
  "(string \<Rightarrow> py_error + 't) \<Rightarrow> (int \<times> int \<Rightarrow> int \<Rightarrow> 't \<Rightarrow> bool)
    \<Rightarrow> ('l, 'ct, 'cr) data_generator \<Rightarrow> string list \<Rightarrow> 'l list
    \<Rightarrow> py_error + ('t option list \<times> 'l option list)" where
  "batch_variants encode fits self features_to_encode corresponding_labels =
     (let first_dim = length corresponding_labels in
      if fst (dim_g self) < 0 \<or> snd (dim_g self) < 0 \<or> n_channels self < 0 then Inl ValueError
      else batch_loop encode (fits (dim_g self) (n_channels self)) corresponding_labels 0
             features_to_encode (replicate first_dim None) (replicate first_dim None))"

text \<open>
  \<^verbatim>\<open>__getitem__\<close>: the two slices, the encoding of the window, and the labels
  only when \<open>train\<close> is set.
\<close>

datatype ('t, 'l) batch = Features_Labels "'t option list" "'l option list"
  | Features_Only "'t option list"

definition DataGenerator_getitem ::
  "(string \<Rightarrow> py_error + 't) \<Rightarrow> (int \<times> int \<Rightarrow> int \<Rightarrow> 't \<Rightarrow> bool)
    \<Rightarrow> ('l, 'ct, 'cr) data_generator \<Rightarrow> int \<Rightarrow> py_error + ('t, 'l) batch" where
  "DataGenerator_getitem encode fits self i =
     (let features_batch =
            py_slice (features self) (i * batch_size self) ((i + 1) * batch_size self);
          label_batch =
            py_slice (labels_g self) (i * batch_size self) ((i + 1) * batch_size self)
      in case batch_variants encode fits self features_batch label_batch of
           Inl e \<Rightarrow> Inl e
         | Inr (f, l) \<Rightarrow> if train self then Inr (Features_Labels f l) else Inr (Features_Only f))"

text \<open>
  \<^verbatim>\<open>on_epoch_end\<close>: \<open>idx\<close> becomes \<^verbatim>\<open>np.arange(len(self.features))\<close>,
  shuffled when \<open>shuffle\<close> is set; \<open>shuffled\<close> is the outcome of that shuffle.
\<close>

definition on_epoch_end ::
  "nat list \<Rightarrow> ('l, 'ct, 'cr) data_generator \<Rightarrow> ('l, 'ct, 'cr) data_generator" where
  "on_epoch_end shuffled self =
     self\<lparr> idx := Some (if shuffle self then shuffled else [0..<length (features self)]) \<rparr>"



section \<open>augment on a store of arrays\<close>

text \<open>
  Arrays and lists are objects: a store maps addresses to their contents, and a
  variable of the program holds an address. A numpy operation that returns a new array
  allocates a cell; \<^verbatim>\<open>np.random.shuffle\<close>, \<^verbatim>\<open>append\<close> and \<^verbatim>\<open>+=\<close> on a list
  overwrite the cell of their target. The contents are computed by the same functions
  as above.
\<close>

datatype 'l cell = Str_array "string list" | Label_array "'l list" | Int_array "int list"
  | Index_array "nat list"

type_synonym 'l store = "'l cell list"

definition bind_st ::
  "('s \<Rightarrow> py_error + ('a \<times> 's)) \<Rightarrow> ('a \<Rightarrow> 's \<Rightarrow> py_error + ('b \<times> 's))
    \<Rightarrow> 's \<Rightarrow> py_error + ('b \<times> 's)" where
  "bind_st m f s = (case m s of Inl e \<Rightarrow> Inl e | Inr (x, s') \<Rightarrow> f x s')"

definition st_new :: "'l cell \<Rightarrow> 'l store \<Rightarrow> py_error + (nat \<times> 'l store)" where
  "st_new c s = Inr (length s, s @ [c])"

definition cell_len :: "'l cell \<Rightarrow> nat" where
  "cell_len c = (case c of Str_array xs \<Rightarrow> length xs | Label_array xs \<Rightarrow> length xs
                 | Int_array xs \<Rightarrow> length xs | Index_array xs \<Rightarrow> length xs)"

definition cell_take :: "'l cell \<Rightarrow> 'l cell \<Rightarrow> py_error + 'l cell" where
  "cell_take c i =
     (case i of
        Index_array inds \<Rightarrow>
          (case c of
             Str_array xs \<Rightarrow> map_sum id Str_array (np_take xs inds)
           | Label_array xs \<Rightarrow> map_sum id Label_array (np_take xs inds)
           | Int_array xs \<Rightarrow> map_sum id Int_array (np_take xs inds)
           | Index_array xs \<Rightarrow> map_sum id Index_array (np_take xs inds))
      | _ \<Rightarrow> Inl TypeError)"

definition cell_add :: "'l::plus cell \<Rightarrow> 'l cell \<Rightarrow> py_error + 'l cell" where
  "cell_add a b =
     (case (a, b) of
        (Label_array xs, Label_array ys) \<Rightarrow> map_sum id Label_array (np_add xs ys)
      | (Int_array xs, Int_array ys) \<Rightarrow> map_sum id Int_array (np_add xs ys)
      | _ \<Rightarrow> Inl TypeError)"

definition cell_delete :: "'l cell \<Rightarrow> 'l cell \<Rightarrow> py_error + 'l cell" where
  "cell_delete c d =
     (case d of
        Index_array to_del \<Rightarrow>
          (case c of
             Str_array xs \<Rightarrow> map_sum id Str_array (np_delete xs to_del)
           | Label_array xs \<Rightarrow> map_sum id Label_array (np_delete xs to_del)
           | Int_array xs \<Rightarrow> map_sum id Int_array (np_delete xs to_del)
           | Index_array xs \<Rightarrow> map_sum id Index_array (np_delete xs to_del))
      | _ \<Rightarrow> Inl TypeError)"

definition cell_extend :: "'l cell \<Rightarrow> 'l cell \<Rightarrow> py_error + 'l cell" where
  "cell_extend a b =
     (case (a, b) of
        (Str_array xs, Str_array ys) \<Rightarrow> Inr (Str_array (xs @ ys))
      | (Label_array xs, Label_array ys) \<Rightarrow> Inr (Label_array (xs @ ys))
      | (Int_array xs, Int_array ys) \<Rightarrow> Inr (Int_array (xs @ ys))
      | (Index_array xs, Index_array ys) \<Rightarrow> Inr (Index_array (xs @ ys))
      | _ \<Rightarrow> Inl TypeError)"

text \<open>
  The statements of augment. \<open>st_arange_len a\<close> is \<^verbatim>\<open>np.arange(len(a))\<close>,
  \<open>st_shuffle a p\<close> is \<^verbatim>\<open>np.random.shuffle(a)\<close> with outcome \<open>p\<close>, \<open>st_take a i\<close> is
  \<^verbatim>\<open>a[i]\<close>, \<open>st_add a b\<close> is \<^verbatim>\<open>a + b\<close>, \<open>st_delete a d\<close> is
  \<^verbatim>\<open>np.delete(a, d)\<close>, \<open>st_asarray a\<close> is \<^verbatim>\<open>np.asarray(a)\<close> of a list,
  \<open>st_extend a b\<close> is \<^verbatim>\<open>a += b.tolist()\<close>, \<open>st_unique_index a\<close> is the index
  array of \<^verbatim>\<open>np.unique(a, return_index=True)\<close>, and \<open>st_pair_loop\<close> is the inner
  loop, which appends to the lists \<open>new_data\<close> and \<open>to_del\<close>.
\<close>

definition st_arange_len :: "nat \<Rightarrow> 'l store \<Rightarrow> py_error + (nat \<times> 'l store)" where
  "st_arange_len a s = st_new (Index_array [0..<cell_len (s ! a)]) s"

definition st_shuffle :: "nat \<Rightarrow> nat list \<Rightarrow> 'l store \<Rightarrow> py_error + (unit \<times> 'l store)" where
  "st_shuffle a p s = Inr ((), s[a := Index_array p])"

definition st_take :: "nat \<Rightarrow> nat \<Rightarrow> 'l store \<Rightarrow> py_error + (nat \<times> 'l store)" where
  "st_take a i s = (case cell_take (s ! a) (s ! i) of Inl e \<Rightarrow> Inl e | Inr c \<Rightarrow> st_new c s)"

definition st_add :: "nat \<Rightarrow> nat \<Rightarrow> 'l::plus store \<Rightarrow> py_error + (nat \<times> 'l store)" where
  "st_add a b s = (case cell_add (s ! a) (s ! b) of Inl e \<Rightarrow> Inl e | Inr c \<Rightarrow> st_new c s)"

definition st_delete :: "nat \<Rightarrow> nat \<Rightarrow> 'l store \<Rightarrow> py_error + (nat \<times> 'l store)" where
  "st_delete a d s =
     (case cell_delete (s ! a) (s ! d) of Inl e \<Rightarrow> Inl e | Inr c \<Rightarrow> st_new c s)"

definition st_asarray :: "nat \<Rightarrow> 'l store \<Rightarrow> py_error + (nat \<times> 'l store)" where
  "st_asarray a s = st_new (s ! a) s"

definition st_extend :: "nat \<Rightarrow> nat \<Rightarrow> 'l store \<Rightarrow> py_error + (unit \<times> 'l store)" where
  "st_extend a b s =
     (case cell_extend (s ! a) (s ! b) of Inl e \<Rightarrow> Inl e | Inr c \<Rightarrow> Inr ((), s[a := c]))"

definition st_unique_index :: "nat \<Rightarrow> 'l store \<Rightarrow> py_error + (nat \<times> 'l store)" where
  "st_unique_index a s =
     (case s ! a of
        Str_array xs \<Rightarrow> st_new (Index_array (np_unique_index xs)) s
      | _ \<Rightarrow> Inl TypeError)"

definition st_pair_loop ::
  "nat \<Rightarrow> nat \<Rightarrow> nat \<Rightarrow> nat \<Rightarrow> nat \<Rightarrow> 'l store \<Rightarrow> py_error + (unit \<times> 'l store)" where
  "st_pair_loop new_mutations data dp new_data to_del s =
     (case (s ! new_mutations, s ! data, s ! dp, s ! new_data, s ! to_del) of
        (Int_array nm, Str_array js, Str_array ks, Str_array nd, Index_array td) \<Rightarrow>
          (case pair_loop nm 0 (zip js ks) nd td of
             Inl e \<Rightarrow> Inl e
           | Inr (nd', td') \<Rightarrow>
               Inr ((), s[new_data := Str_array nd', to_del := Index_array td']))
      | _ \<Rightarrow> Inl TypeError)"

text \<open>One iteration of the loop over the runs, statement by statement.\<close>

definition augment_run_st ::
  "nat \<Rightarrow> nat \<Rightarrow> nat \<Rightarrow> nat \<Rightarrow> nat \<Rightarrow> nat \<Rightarrow> nat \<Rightarrow> nat list
    \<Rightarrow> 'l::plus store \<Rightarrow> py_error + (unit \<times> 'l store)" where
  "augment_run_st data labels mutations pos_inds nd nl nm shuffled =
     bind_st (st_shuffle pos_inds shuffled) (\<lambda>_.
     bind_st (st_take labels pos_inds) (\<lambda>lp.
     bind_st (st_add labels lp) (\<lambda>new_labels.
     bind_st (st_take mutations pos_inds) (\<lambda>mp.
     bind_st (st_add mutations mp) (\<lambda>new_mutations.
     bind_st (st_new (Str_array [])) (\<lambda>new_data.
     bind_st (st_new (Index_array [])) (\<lambda>to_del.
     bind_st (st_take data pos_inds) (\<lambda>dp.
     bind_st (st_pair_loop new_mutations data dp new_data to_del) (\<lambda>_.
     bind_st (st_delete new_labels to_del) (\<lambda>new_labels'.
     bind_st (st_delete new_mutations to_del) (\<lambda>new_mutations'.
     bind_st (st_asarray new_data) (\<lambda>new_data_arr.
     bind_st (st_delete new_data_arr to_del) (\<lambda>new_data'.
     bind_st (st_extend nd new_data') (\<lambda>_.
     bind_st (st_extend nl new_labels') (\<lambda>_.
     st_extend nm new_mutations')))))))))))))))"

fun runs_loop_st ::
  "nat \<Rightarrow> nat \<Rightarrow> nat \<Rightarrow> nat \<Rightarrow> nat \<Rightarrow> nat \<Rightarrow> nat \<Rightarrow> nat list list
    \<Rightarrow> 'l::plus store \<Rightarrow> py_error + (unit \<times> 'l store)" where
  "runs_loop_st data labels mutations pos_inds nd nl nm [] = (\<lambda>s. Inr ((), s))"
| "runs_loop_st data labels mutations pos_inds nd nl nm (shuffled # later) =
     bind_st (augment_run_st data labels mutations pos_inds nd nl nm shuffled) (\<lambda>_.
     runs_loop_st data labels mutations pos_inds nd nl nm later)"

text \<open>
  \<open>augment_st data labels mutations runs un rng\<close>: the arguments are the addresses of
  the three input arrays; the result is the addresses of the three returned arrays and
  the store after the call.
\<close>

definition augment_st ::
  "nat \<Rightarrow> nat \<Rightarrow> nat \<Rightarrow> int \<Rightarrow> bool \<Rightarrow> (nat \<Rightarrow> nat list)
    \<Rightarrow> 'l::plus store \<Rightarrow> py_error + ((nat \<times> nat \<times> nat) \<times> 'l store)" where
  "augment_st data labels mutations runs un rng =
     bind_st (st_arange_len labels) (\<lambda>pos_inds.
     bind_st (st_new (Str_array [])) (\<lambda>nd.
     bind_st (st_new (Label_array [])) (\<lambda>nl.
     bind_st (st_new (Int_array [])) (\<lambda>nm.
     bind_st (runs_loop_st data labels mutations pos_inds nd nl nm (map rng [0..<nat runs])) (\<lambda>_.
     if un then
       bind_st (st_unique_index nd) (\<lambda>uni.
       bind_st (st_asarray nd) (\<lambda>nd_arr.
       bind_st (st_take nd_arr uni) (\<lambda>nd'.
       bind_st (st_asarray nl) (\<lambda>nl_arr.
       bind_st (st_take nl_arr uni) (\<lambda>nl'.
       bind_st (st_asarray nm) (\<lambda>nm_arr.
       bind_st (st_take nm_arr uni) (\<lambda>nm'.
       (\<lambda>s. Inr ((nd', nl', nm'), s)))))))))
     else
       bind_st (st_asarray nd) (\<lambda>nd'.
       bind_st (st_asarray nl) (\<lambda>nl'.
       bind_st (st_asarray nm) (\<lambda>nm'.
       (\<lambda>s. Inr ((nd', nl', nm'), s))))))))))"


text \<open>
  A statement \<open>m\<close> keeps the first \<open>n\<close> cells of the store, and its result satisfies
  \<open>Q\<close>.
\<close>

definition frame :: "nat \<Rightarrow> ('l store \<Rightarrow> py_error + ('a \<times> 'l store)) \<Rightarrow> ('a \<Rightarrow> bool) \<Rightarrow> bool" where
  "frame n m Q =
     (\<forall>s x s'. n \<le> length s \<and> m s = Inr (x, s') \<longrightarrow>
        n \<le> length s' \<and> take n s' = take n s \<and> Q x)"


section \<open>Facts about the primitives\<close>

lemma distinct_remdups_adj_sorted:
  "sorted xs \<Longrightarrow> distinct (remdups_adj (xs::'a::linorder list))"
  by (induction xs rule: remdups_adj.induct) (auto)

lemma np_unique_sorted: "sorted (np_unique xs)"
  by (simp add: np_unique_def sorted_remdups_adj)

lemma np_unique_distinct: "distinct (np_unique xs)"
  by (simp add: np_unique_def distinct_remdups_adj_sorted)

lemma np_unique_set: "set (np_unique xs) = set xs"
  by (simp add: np_unique_def)


lemma first_index_less: "v \<in> set xs \<Longrightarrow> first_index xs v < length xs"
  unfolding first_index_def by (induction xs) auto

lemma first_index_nth: "v \<in> set xs \<Longrightarrow> xs ! first_index xs v = v"
  unfolding first_index_def by (induction xs) auto

lemma first_index_first:
  assumes "j < first_index xs v"
  shows "xs ! j \<noteq> v"
proof -
  let ?t = "takeWhile (\<lambda>x. x \<noteq> v) xs"
  from assms have j: "j < length ?t" by (simp add: first_index_def)
  then have "?t ! j \<in> set ?t" by (rule nth_mem)
  then have "?t ! j \<noteq> v" by (rule set_takeWhileD[THEN conjunct2])
  with j show ?thesis by (simp add: takeWhile_nth)
qed

lemma pair_loop_eq:
  "cj + length ps \<le> length nm \<Longrightarrow>
   pair_loop nm cj ps nd td =
     Inr (nd @ map (\<lambda>(j, k). join_comma (pos_new_data j k)) ps,
          td @ map fst (filter (\<lambda>(c, (j, k)). int (length (np_unique (pos_new_data j k))) \<noteq> nm ! c)
                          (enumerate cj ps)))"
proof (induction ps arbitrary: cj nd td)
  case Nil
  then show ?case by simp
next
  case (Cons a ps)
  obtain j k where a: "a = (j, k)" by (cases a)
  from Cons.prems have "Suc cj + length ps \<le> length nm" and "cj < length nm" by simp_all
  then show ?case
    using Cons.IH[of "Suc cj"] by (simp add: a)
qed

lemma zip_upt_nth: "length ps = n \<Longrightarrow> zip [0..<n] ps = map (\<lambda>c. (c, ps ! c)) [0..<n]"
  by (rule nth_equalityI) auto

lemma zip_nth_upt: "length xs = n \<Longrightarrow> zip xs [0..<n] = map (\<lambda>c. (xs ! c, c)) [0..<n]"
  by (rule nth_equalityI) auto

lemma np_delete_filter:
  "length xs = n \<Longrightarrow>
   np_delete xs (filter R [0..<n]) = Inr (map (\<lambda>c. xs ! c) (filter (\<lambda>c. \<not> R c) [0..<n]))"
proof -
  assume n: "length xs = n"
  have in_range: "\<forall>i \<in> set (filter R [0..<n]). i < length xs"
    using n by simp
  have "filter (\<lambda>(x, i). i \<notin> set (filter R [0..<n])) (map (\<lambda>c. (xs ! c, c)) [0..<n])
        = map (\<lambda>c. (xs ! c, c)) (filter (\<lambda>c. \<not> R c) [0..<n])"
    unfolding filter_map by (rule arg_cong[where f = "map _"], rule filter_cong) auto
  then show ?thesis
    using in_range n by (simp add: np_delete_def zip_nth_upt[OF n] comp_def)
qed


section \<open>One run of augment on parallel arrays\<close>

lemma np_take_ok:
  "\<forall>i \<in> set inds. i < length xs \<Longrightarrow> np_take xs inds = Inr (map (\<lambda>i. xs ! i) inds)"
  by (simp add: np_take_def)

lemma np_add_same:
  "length xs = length ys \<Longrightarrow> np_add xs ys = Inr (map (\<lambda>(x, y). x + y) (zip xs ys))"
  by (simp add: np_add_def)

lemma pair_loop_wf:
  assumes d: "length data = n" and m: "length mutations = n" and p: "length p = n"
  shows "pair_loop (map (\<lambda>(x, y). x + y) (zip mutations (map (\<lambda>i. mutations ! i) p))) 0
           (zip data (map (\<lambda>i. data ! i) p)) [] [] =
         Inr (map (\<lambda>(j, k). join_comma (pos_new_data j k)) (zip data (map (\<lambda>i. data ! i) p)),
              filter (\<lambda>c. \<not> accepted data mutations p c) [0..<n])"
proof -
  let ?nm = "map (\<lambda>(x, y). x + y) (zip mutations (map (\<lambda>i. mutations ! i) p))"
  let ?ps = "zip data (map (\<lambda>i. data ! i) p)"
  let ?R = "\<lambda>c. \<not> accepted data mutations p c"
  have len_ps: "length ?ps = n" using d p by simp
  have len_nm: "length ?nm = n" using m p by simp
  have nm_nth: "?nm ! c = mutations ! c + mutations ! (p ! c)" if "c < n" for c
    using that m p by simp
  have ps_nth: "?ps ! c = (data ! c, data ! (p ! c))" if "c < n" for c
    using that d p by simp
  have enum: "enumerate 0 ?ps = map (\<lambda>c. (c, ?ps ! c)) [0..<n]"
    using zip_upt_nth[OF len_ps] len_ps by (simp add: enumerate_eq_zip)
  have td: "map fst (filter (\<lambda>(c, (j, k)). int (length (np_unique (pos_new_data j k))) \<noteq> ?nm ! c)
                 (enumerate 0 ?ps)) = filter ?R [0..<n]"
  proof -
    have "filter (\<lambda>(c, (j, k)). int (length (np_unique (pos_new_data j k))) \<noteq> ?nm ! c)
            (map (\<lambda>c. (c, ?ps ! c)) [0..<n])
          = map (\<lambda>c. (c, ?ps ! c)) (filter ?R [0..<n])"
      unfolding filter_map
    proof (rule arg_cong[where f = "map _"], rule filter_cong[OF refl])
      fix c assume "c \<in> set [0..<n]"
      then have c: "c < n" by simp
      show "((\<lambda>(c, (j, k)). int (length (np_unique (pos_new_data j k))) \<noteq> ?nm ! c) \<circ> (\<lambda>c. (c, ?ps ! c))) c
            = ?R c"
        using ps_nth[OF c] nm_nth[OF c] by (simp add: accepted_def)
    qed
    then show ?thesis by (simp add: enum comp_def)
  qed
  show ?thesis
    using pair_loop_eq[of 0 ?ps ?nm "[]" "[]"] len_ps len_nm td by simp
qed

lemma augment_run_wf:
  fixes labels :: "'l::plus list"
  assumes d: "length data = n" and l: "length labels = n" and m: "length mutations = n"
    and p: "length p = n" and r: "\<forall>i \<in> set p. i < n"
  shows "augment_run data labels mutations p =
     Inr (map fst (candidates data labels mutations p),
          map (fst \<circ> snd) (candidates data labels mutations p),
          map (snd \<circ> snd) (candidates data labels mutations p))"
proof -
  let ?nl = "map (\<lambda>(x, y). x + y) (zip labels (map (\<lambda>i. labels ! i) p))"
  let ?nm = "map (\<lambda>(x, y). x + y) (zip mutations (map (\<lambda>i. mutations ! i) p))"
  let ?ps = "zip data (map (\<lambda>i. data ! i) p)"
  let ?nd = "map (\<lambda>(j, k). join_comma (pos_new_data j k)) ?ps"
  let ?R = "\<lambda>c. \<not> accepted data mutations p c"
  let ?keep = "filter (accepted data mutations p) [0..<n]"
  have t1: "np_take labels p = Inr (map (\<lambda>i. labels ! i) p)"
    using l r by (simp add: np_take_ok)
  have t2: "np_take mutations p = Inr (map (\<lambda>i. mutations ! i) p)"
    using m r by (simp add: np_take_ok)
  have t3: "np_take data p = Inr (map (\<lambda>i. data ! i) p)"
    using d r by (simp add: np_take_ok)
  have a1: "np_add labels (map (\<lambda>i. labels ! i) p) = Inr ?nl"
    using l p by (simp add: np_add_same)
  have a2: "np_add mutations (map (\<lambda>i. mutations ! i) p) = Inr ?nm"
    using m p by (simp add: np_add_same)
  have len_ps: "length ?ps = n" using d p by simp
  have len_nm: "length ?nm = n" using m p by simp
  have len_nl: "length ?nl = n" using l p by simp
  have len_nd: "length ?nd = n" using len_ps by simp
  have nm_nth: "?nm ! c = mutations ! c + mutations ! (p ! c)" if "c < n" for c
    using that m p by simp
  have nl_nth: "?nl ! c = labels ! c + labels ! (p ! c)" if "c < n" for c
    using that l p by simp
  have ps_nth: "?ps ! c = (data ! c, data ! (p ! c))" if "c < n" for c
    using that d p by simp
  have nd_nth: "?nd ! c = join_comma (pos_new_data (data ! c) (data ! (p ! c)))" if "c < n" for c
    using that len_ps ps_nth by simp
  have pl: "pair_loop ?nm 0 ?ps [] [] = Inr (?nd, filter ?R [0..<n])"
    by (rule pair_loop_wf[OF d m p])
  have d1: "np_delete ?nl (filter ?R [0..<n]) = Inr (map (\<lambda>c. ?nl ! c) ?keep)"
    using np_delete_filter[OF len_nl, of ?R] by simp
  have d2: "np_delete ?nm (filter ?R [0..<n]) = Inr (map (\<lambda>c. ?nm ! c) ?keep)"
    using np_delete_filter[OF len_nm, of ?R] by simp
  have d3: "np_delete ?nd (filter ?R [0..<n]) = Inr (map (\<lambda>c. ?nd ! c) ?keep)"
    using np_delete_filter[OF len_nd, of ?R] by simp
  have run: "augment_run data labels mutations p =
      Inr (map (\<lambda>c. ?nd ! c) ?keep, map (\<lambda>c. ?nl ! c) ?keep, map (\<lambda>c. ?nm ! c) ?keep)"
    by (simp only: augment_run_def t1 t2 t3 a1 a2 pl d1 d2 d3 sum.case prod.case)
  have e1: "map (\<lambda>c. ?nd ! c) ?keep = map fst (candidates data labels mutations p)"
    unfolding candidates_def d map_map by (rule map_cong[OF refl]) (simp add: nd_nth)
  have e2: "map (\<lambda>c. ?nl ! c) ?keep = map (fst \<circ> snd) (candidates data labels mutations p)"
    unfolding candidates_def d map_map by (rule map_cong[OF refl]) (simp add: nl_nth)
  have e3: "map (\<lambda>c. ?nm ! c) ?keep = map (snd \<circ> snd) (candidates data labels mutations p)"
    unfolding candidates_def d map_map by (rule map_cong[OF refl]) (simp add: nm_nth)
  show ?thesis unfolding run e1 e2 e3 ..
qed


section \<open>The accumulated lists and the deduplication\<close>

lemma is_shuffle_length: "is_shuffle n p \<Longrightarrow> length p = n"
  unfolding is_shuffle_def by (metis length_sort length_upt diff_zero)

lemma is_shuffle_range: "is_shuffle n p \<Longrightarrow> \<forall>i \<in> set p. i < n"
  unfolding is_shuffle_def by (metis set_sort atLeastLessThan_iff set_upt)

lemma runs_loop_wf:
  fixes labels :: "'l::plus list"
  assumes d: "length data = n" and l: "length labels = n" and m: "length mutations = n"
  shows "\<forall>p \<in> set ps. is_shuffle n p \<Longrightarrow>
    runs_loop data labels mutations ps nd nl nm =
      Inr (nd @ map fst (concat (map (candidates data labels mutations) ps)),
           nl @ map (fst \<circ> snd) (concat (map (candidates data labels mutations) ps)),
           nm @ map (snd \<circ> snd) (concat (map (candidates data labels mutations) ps)))"
proof (induction ps arbitrary: nd nl nm)
  case Nil
  then show ?case by simp
next
  case (Cons p ps)
  then have p: "is_shuffle n p" and rest: "\<forall>p \<in> set ps. is_shuffle n p" by simp_all
  have run: "augment_run data labels mutations p =
     Inr (map fst (candidates data labels mutations p),
          map (fst \<circ> snd) (candidates data labels mutations p),
          map (snd \<circ> snd) (candidates data labels mutations p))"
    using augment_run_wf[OF d l m is_shuffle_length[OF p] is_shuffle_range[OF p]] .
  show ?case
    by (simp add: run Cons.IH[OF rest])
qed

lemma augment_plain:
  fixes labels :: "'l::plus list"
  assumes d: "length data = length labels" and m: "length mutations = length labels"
    and s: "\<forall>r < nat runs. is_shuffle (length labels) (rng r)"
  shows "augment data labels mutations runs False rng =
      Inr (map fst (accumulated data labels mutations runs rng),
           map (fst \<circ> snd) (accumulated data labels mutations runs rng),
           map (snd \<circ> snd) (accumulated data labels mutations runs rng))"
proof -
  have "\<forall>p \<in> set (map rng [0..<nat runs]). is_shuffle (length labels) p"
    using s by simp
  from runs_loop_wf[OF d refl m this, of "[]" "[]" "[]"]
  show ?thesis by (simp add: augment_def accumulated_def)
qed

lemma np_unique_index_range: "\<forall>i \<in> set (np_unique_index xs). i < length xs"
  by (simp add: np_unique_index_def np_unique_set first_index_less)

lemma np_take_unique_index: "map (\<lambda>i. xs ! i) (np_unique_index xs) = np_unique xs"
proof -
  have "map (\<lambda>i. xs ! i) (np_unique_index xs) = map (\<lambda>v. v) (np_unique xs)"
    unfolding np_unique_index_def map_map
    by (rule map_cong[OF refl]) (simp add: np_unique_set first_index_nth)
  then show ?thesis by simp
qed

lemma augment_unique:
  fixes labels :: "'l::plus list"
  assumes d: "length data = length labels" and m: "length mutations = length labels"
    and s: "\<forall>r < nat runs. is_shuffle (length labels) (rng r)"
    and nd: "nd = map fst (accumulated data labels mutations runs rng)"
    and nl: "nl = map (fst \<circ> snd) (accumulated data labels mutations runs rng)"
    and nm: "nm = map (snd \<circ> snd) (accumulated data labels mutations runs rng)"
  shows "augment data labels mutations runs True rng =
      Inr (np_unique nd, map (\<lambda>i. nl ! i) (np_unique_index nd),
           map (\<lambda>i. nm ! i) (np_unique_index nd))"
proof -
  have "\<forall>p \<in> set (map rng [0..<nat runs]). is_shuffle (length labels) p"
    using s by simp
  from runs_loop_wf[OF d refl m this, of "[]" "[]" "[]"]
  have loop: "runs_loop data labels mutations (map rng [0..<nat runs]) [] [] [] = Inr (nd, nl, nm)"
    by (simp add: accumulated_def nd nl nm)
  have len: "length nl = length nd" "length nm = length nd"
    by (simp_all add: nd nl nm)
  have t1: "np_take nd (np_unique_index nd) = Inr (np_unique nd)"
    using np_unique_index_range[of nd] by (simp add: np_take_ok np_take_unique_index)
  have t2: "np_take nl (np_unique_index nd) = Inr (map (\<lambda>i. nl ! i) (np_unique_index nd))"
    using np_unique_index_range[of nd] len by (simp add: np_take_ok)
  have t3: "np_take nm (np_unique_index nd) = Inr (map (\<lambda>i. nm ! i) (np_unique_index nd))"
    using np_unique_index_range[of nd] len by (simp add: np_take_ok)
  show ?thesis
    by (simp only: augment_def loop sum.case prod.case if_True Let_def t1 t2 t3)
qed


section \<open>Acceptance and rejection of a candidate\<close>












section \<open>Deduplication\<close>

text \<open>
  Claim C6. With \<open>un = True\<close> the returned variant strings are pairwise distinct and
  are exactly the strings of the accumulated lists (the result with \<open>un = False\<close>, by
  the same shuffles), and the entry at every returned position carries the label and
  the mutation count found at the first occurrence of its string in the accumulated
  lists.
\<close>

theorem augment_dedup_first_occurrence:
  fixes labels :: "'l::plus list"
  assumes d: "length data = length labels" and m: "length mutations = length labels"
    and s: "\<forall>r < nat runs. is_shuffle (length labels) (rng r)"
  shows "\<exists>nd nl nm ud ul um.
           augment data labels mutations runs False rng = Inr (nd, nl, nm)
         \<and> augment data labels mutations runs True rng = Inr (ud, ul, um)
         \<and> distinct ud \<and> set ud = set nd
         \<and> length ul = length ud \<and> length um = length ud
         \<and> (\<forall>k < length ud. \<exists>i < length nd.
                nd ! i = ud ! k \<and> (\<forall>j < i. nd ! j \<noteq> ud ! k)
              \<and> ul ! k = nl ! i \<and> um ! k = nm ! i)"
proof -
  let ?T = "accumulated data labels mutations runs rng"
  let ?nd = "map fst ?T" and ?nl = "map (fst \<circ> snd) ?T" and ?nm = "map (snd \<circ> snd) ?T"
  let ?uni = "np_unique_index ?nd"
  let ?ud = "np_unique ?nd"
  let ?ul = "map (\<lambda>i. ?nl ! i) ?uni" and ?um = "map (\<lambda>i. ?nm ! i) ?uni"
  have plain: "augment data labels mutations runs False rng = Inr (?nd, ?nl, ?nm)"
    by (rule augment_plain[OF d m s])
  have uniq: "augment data labels mutations runs True rng = Inr (?ud, ?ul, ?um)"
    by (rule augment_unique[OF d m s refl refl refl])
  have len: "length ?uni = length ?ud" by (simp add: np_unique_index_def)
  have first: "\<exists>i < length ?nd. ?nd ! i = ?ud ! k \<and> (\<forall>j < i. ?nd ! j \<noteq> ?ud ! k)
                 \<and> ?ul ! k = ?nl ! i \<and> ?um ! k = ?nm ! i" if k: "k < length ?ud" for k
  proof -
    have v: "?ud ! k \<in> set ?nd"
      using nth_mem[OF k] by (simp only: np_unique_set)
    have u: "?uni ! k = first_index ?nd (?ud ! k)"
      using k by (simp add: np_unique_index_def)
    have "first_index ?nd (?ud ! k) < length ?nd" by (rule first_index_less[OF v])
    moreover have "?nd ! first_index ?nd (?ud ! k) = ?ud ! k" by (rule first_index_nth[OF v])
    moreover have "\<forall>j < first_index ?nd (?ud ! k). ?nd ! j \<noteq> ?ud ! k"
      by (intro allI impI) (rule first_index_first)
    moreover have "?ul ! k = ?nl ! first_index ?nd (?ud ! k)"
      using k len u by (simp only: nth_map)
    moreover have "?um ! k = ?nm ! first_index ?nd (?ud ! k)"
      using k len u by (simp only: nth_map)
    ultimately show ?thesis by (intro exI[of _ "first_index ?nd (?ud ! k)"] conjI)
  qed
  have dist: "distinct ?ud" by (rule np_unique_distinct)
  have st: "set ?ud = set ?nd" by (rule np_unique_set)
  have l1: "length ?ul = length ?ud" and l2: "length ?um = length ?ud" using len by simp_all
  have all: "\<forall>k < length ?ud. \<exists>i < length ?nd.
                ?nd ! i = ?ud ! k \<and> (\<forall>j < i. ?nd ! j \<noteq> ?ud ! k)
              \<and> ?ul ! k = ?nl ! i \<and> ?um ! k = ?nm ! i"
    using first by (intro allI impI)
  show ?thesis
    by (intro exI[of _ ?nd] exI[of _ ?nl] exI[of _ ?nm] exI[of _ ?ud] exI[of _ ?ul] exI[of _ ?um]
          conjI plain uniq dist st l1 l2 all)
qed

theorem augment_dedup_first_occurrence_witness:
  "\<exists>nd nl nm ud ul um.
       augment [''S1A'', ''D35T'', ''S1A''] [1, 2, 10 :: int] [1, 1, 1] 1 False (\<lambda>_. [1, 2, 0])
         = Inr (nd, nl, nm)
     \<and> augment [''S1A'', ''D35T'', ''S1A''] [1, 2, 10 :: int] [1, 1, 1] 1 True (\<lambda>_. [1, 2, 0])
         = Inr (ud, ul, um)
     \<and> distinct ud \<and> set ud = set nd
     \<and> length ul = length ud \<and> length um = length ud
     \<and> (\<forall>k < length ud. \<exists>i < length nd.
            nd ! i = ud ! k \<and> (\<forall>j < i. nd ! j \<noteq> ud ! k)
          \<and> ul ! k = nl ! i \<and> um ! k = nm ! i)"
proof -
  have sh: "is_shuffle (length [1, 2, 10 :: int]) [1, 2, 0]" by code_simp
  have s: "\<forall>r < nat 1. is_shuffle (length [1, 2, 10 :: int]) ((\<lambda>_. [1, 2, 0]) r)"
    using sh by simp
  show ?thesis
    by (rule augment_dedup_first_occurrence[OF _ _ s]) simp_all
qed

text \<open>
  Claim C10. With \<open>un = True\<close> the returned variant strings are in strictly ascending
  lexicographic order, whatever the order in which the candidates were generated.
\<close>

theorem augment_dedup_sorted:
  fixes labels :: "'l::plus list"
  assumes d: "length data = length labels" and m: "length mutations = length labels"
    and s: "\<forall>r < nat runs. is_shuffle (length labels) (rng r)"
  shows "\<exists>ud ul um. augment data labels mutations runs True rng = Inr (ud, ul, um)
           \<and> sorted_wrt (<) ud"
proof -
  let ?T = "accumulated data labels mutations runs rng"
  have "augment data labels mutations runs True rng =
      Inr (np_unique (map fst ?T), map (\<lambda>i. map (fst \<circ> snd) ?T ! i) (np_unique_index (map fst ?T)),
           map (\<lambda>i. map (snd \<circ> snd) ?T ! i) (np_unique_index (map fst ?T)))"
    by (rule augment_unique[OF d m s refl refl refl])
  moreover have "sorted_wrt (<) (np_unique (map fst ?T))"
    using np_unique_sorted[of "map fst ?T"] np_unique_distinct[of "map fst ?T"]
    by (simp add: strict_sorted_iff)
  ultimately show ?thesis by blast
qed

theorem augment_dedup_sorted_witness:
  "\<exists>ud ul um.
       augment [''S1A'', ''D35T'', ''V2R''] [1, 2, 4 :: int] [1, 1, 1] 1 True (\<lambda>_. [2, 0, 1])
         = Inr (ud, ul, um)
     \<and> sorted_wrt (<) ud"
proof -
  have sh: "is_shuffle (length [1, 2, 4 :: int]) [2, 0, 1]" by code_simp
  have s: "\<forall>r < nat 1. is_shuffle (length [1, 2, 4 :: int]) ((\<lambda>_. [2, 0, 1]) r)"
    using sh by simp
  show ?thesis
    by (rule augment_dedup_sorted[OF _ _ s]) simp_all
qed


section \<open>The wild-type encoder\<close>

lemma ncols_nth0: "0 < length m \<Longrightarrow> ncols m = length (m ! 0)"
  by (cases m) (simp_all add: ncols_def)

lemma index_matrix_shape_entries:
  assumes i: "i < n" and j: "j < n"
  shows "length (index_matrix n) = n"
    and "length (index_matrix n ! i) = n"
    and "index_matrix n ! i ! j =
           (if i = j then 0
            else if i < j then real (i * n + j) / real_of_int (int n * int n - 1)
            else real (j * n + i) / real_of_int (int n * int n - 1))"
proof -
  define d where "d = real_of_int (int n * int n - 1)"
  define P where "P = np_arange_grid n d"
  define U where "U = np_triu P"
  define T where "T = np_T U"
  define D where "D = np_diag (np_diag_of U)"
  define S where "S = mat_sub (mat_add U T) D"
  have M: "index_matrix n = np_fill_diagonal S 0"
    by (simp add: index_matrix_def Let_def S_def D_def T_def U_def P_def d_def)
  have n0: "0 < n" using i by simp
  have lP: "length P = n" by (simp add: P_def np_arange_grid_def)
  have rP: "length (P ! a) = n" if "a < n" for a
    using that by (simp add: P_def np_arange_grid_def)
  have eP: "P ! a ! b = real (a * n + b) / d" if "a < n" "b < n" for a b
    using that by (simp add: P_def np_arange_grid_def)
  have lU: "length U = n" by (simp add: U_def np_triu_def lP)
  have rU: "length (U ! a) = n" if "a < n" for a
    using that by (simp add: U_def np_triu_def lP rP)
  have eU: "U ! a ! b = (if a \<le> b then real (a * n + b) / d else 0)" if "a < n" "b < n" for a b
    using that by (simp add: U_def np_triu_def lP rP eP)
  have cU: "ncols U = n" using ncols_nth0[of U] lU n0 rU[of 0] by simp
  have lT: "length T = n" by (simp add: T_def np_T_def cU)
  have rT: "length (T ! a) = n" if "a < n" for a
    using that by (simp add: T_def np_T_def cU lU)
  have eT: "T ! a ! b = U ! b ! a" if "a < n" "b < n" for a b
    using that by (simp add: T_def np_T_def cU lU)
  have lv: "length (np_diag_of U) = n" by (simp add: np_diag_of_def cU lU)
  have ev: "np_diag_of U ! a = U ! a ! a" if "a < n" for a
    using that by (simp add: np_diag_of_def cU lU)
  have lD: "length D = n" by (simp add: D_def np_diag_def lv)
  have rD: "length (D ! a) = n" if "a < n" for a
    using that by (simp add: D_def np_diag_def lv)
  have eD: "D ! a ! b = (if a = b then U ! a ! a else 0)" if "a < n" "b < n" for a b
    using that by (simp add: D_def np_diag_def lv ev)
  have lA: "length (mat_add U T) = n" by (simp add: mat_add_def lU lT)
  have rA: "length (mat_add U T ! a) = n" if "a < n" for a
    using that by (simp add: mat_add_def lU lT rU rT)
  have eA: "mat_add U T ! a ! b = U ! a ! b + U ! b ! a" if "a < n" "b < n" for a b
    using that by (simp add: mat_add_def lU lT rU rT eT)
  have lS: "length S = n" by (simp add: S_def mat_sub_def lA lD)
  have rS: "length (S ! a) = n" if "a < n" for a
    using that by (simp add: S_def mat_sub_def lA lD rA rD)
  have eS: "S ! a ! b = U ! a ! b + U ! b ! a - (if a = b then U ! a ! a else 0)"
    if "a < n" "b < n" for a b
    using that by (simp add: S_def mat_sub_def lA lD rA rD eA eD)
  show "length (index_matrix n) = n"
    by (simp add: M np_fill_diagonal_def lS)
  have row: "index_matrix n ! i = (S ! i)[i := 0]"
    using i by (simp add: M np_fill_diagonal_def lS nth_enumerate_eq)
  show "length (index_matrix n ! i) = n"
    by (simp add: row rS[OF i])
  show "index_matrix n ! i ! j =
           (if i = j then 0
            else if i < j then real (i * n + j) / real_of_int (int n * int n - 1)
            else real (j * n + i) / real_of_int (int n * int n - 1))"
    using i j by (simp add: row rS eS eU nth_list_update d_def)
qed

text \<open>
  Claim C8. Whenever \<open>data_generator_vals\<close> returns for a wild-type sequence of length
  \<open>n \<ge> 1\<close>, the index matrix it returns has \<open>n\<close> rows of \<open>n\<close> entries, is symmetric
  and has 0 at every diagonal position.
\<close>

theorem data_generator_vals_mat_index_symmetric:
  assumes ret: "data_generator_vals tables alignment_table wt_seq alignment_path alignment_base = Inr r"
    and n: "n = length wt_seq" and pos: "1 \<le> n"
  shows "length (mat_index r) = n
       \<and> (\<forall>i < n. length (mat_index r ! i) = n)
       \<and> (\<forall>i < n. \<forall>j < n. mat_index r ! i ! j = mat_index r ! j ! i)
       \<and> (\<forall>i < n. mat_index r ! i ! i = 0)"
proof -
  have m: "mat_index r = index_matrix n"
    using ret unfolding data_generator_vals_def Let_def n
    by (auto split: sum.splits option.splits prod.splits)
  have z: "0 < n" using pos by simp
  have "length (index_matrix n) = n"
    using index_matrix_shape_entries(1)[OF z z] .
  moreover have "\<forall>i < n. length (index_matrix n ! i) = n"
    using index_matrix_shape_entries(2) by blast
  moreover have "\<forall>i < n. \<forall>j < n. index_matrix n ! i ! j = index_matrix n ! j ! i"
    by (simp add: index_matrix_shape_entries(3))
  moreover have "\<forall>i < n. index_matrix n ! i ! i = 0"
    by (simp add: index_matrix_shape_entries(3))
  ultimately show ?thesis unfolding m by blast
qed

theorem data_generator_vals_mat_index_symmetric_witness:
  "\<exists>r. data_generator_vals
          \<lparr> hydrophobicity = [(CHR ''A'', 9/5), (CHR ''V'', 21/5)],
            h_bonding = [(CHR ''A'', 0), (CHR ''V'', 0)],
            charge = [(CHR ''A'', 0), (CHR ''V'', 0)],
            sasa = [(CHR ''A'', 75), (CHR ''V'', 125)],
            side_chain_length = [(CHR ''A'', 3/2), (CHR ''V'', 5/2)],
            aa_dict_pos = [(CHR ''A'', 0), (CHR ''V'', 1)] \<rparr>
          (\<lambda>path base. Inl ExternalError :: py_error + (unit \<times> unit)) ''AVA'' None None = Inr r
      \<and> length (mat_index r) = length ''AVA''
      \<and> (\<forall>i < length ''AVA''. length (mat_index r ! i) = length ''AVA'')
      \<and> (\<forall>i < length ''AVA''. \<forall>j < length ''AVA''. mat_index r ! i ! j = mat_index r ! j ! i)
      \<and> (\<forall>i < length ''AVA''. mat_index r ! i ! i = 0)"
proof -
  let ?T = "\<lparr> hydrophobicity = [(CHR ''A'', 9/5), (CHR ''V'', 21/5)],
            h_bonding = [(CHR ''A'', 0), (CHR ''V'', 0)],
            charge = [(CHR ''A'', 0), (CHR ''V'', 0)],
            sasa = [(CHR ''A'', 75), (CHR ''V'', 125)],
            side_chain_length = [(CHR ''A'', 3/2), (CHR ''V'', 5/2)],
            aa_dict_pos = [(CHR ''A'', 0), (CHR ''V'', 1)] \<rparr>"
  let ?al = "\<lambda>path base. Inl ExternalError :: py_error + (unit \<times> unit)"
  obtain r where ret: "data_generator_vals ?T ?al ''AVA'' None None = Inr r"
    by (simp add: data_generator_vals_def py_max_def py_min_def)
  have one: "1 \<le> length ''AVA''" by simp
  from data_generator_vals_mat_index_symmetric[OF ret refl one] ret
  show ?thesis by (intro exI[of _ r] conjI) blast+
qed

text \<open>
  Claim C4, as stated, fails: the lookups are \<^verbatim>\<open>dict.get\<close>, which returns
  \<^verbatim>\<open>None\<close> for a missing key. For the sequence \<^verbatim>\<open>AX\<close>, whose letter
  \<^verbatim>\<open>X\<close> is in no table, the function returns, and the vectors hold \<open>None\<close> at
  position 1.
\<close>

theorem data_generator_vals_unknown_letter_counterexample:
  "map_sum id hm_converted
     (data_generator_vals
          \<lparr> hydrophobicity = [(CHR ''A'', 9/5), (CHR ''V'', 21/5)],
            h_bonding = [(CHR ''A'', 0), (CHR ''V'', 0)],
            charge = [(CHR ''A'', 0), (CHR ''V'', 0)],
            sasa = [(CHR ''A'', 75), (CHR ''V'', 125)],
            side_chain_length = [(CHR ''A'', 3/2), (CHR ''V'', 5/2)],
            aa_dict_pos = [(CHR ''A'', 0), (CHR ''V'', 1)] \<rparr>
          (\<lambda>path base. Inl ExternalError :: py_error + (unit \<times> unit)) ''AX'' None None)
     = Inr [Some 0, None]
   \<and> map_sum id hp_converted
     (data_generator_vals
          \<lparr> hydrophobicity = [(CHR ''A'', 9/5), (CHR ''V'', 21/5)],
            h_bonding = [(CHR ''A'', 0), (CHR ''V'', 0)],
            charge = [(CHR ''A'', 0), (CHR ''V'', 0)],
            sasa = [(CHR ''A'', 75), (CHR ''V'', 125)],
            side_chain_length = [(CHR ''A'', 3/2), (CHR ''V'', 5/2)],
            aa_dict_pos = [(CHR ''A'', 0), (CHR ''V'', 1)] \<rparr>
          (\<lambda>path base. Inl ExternalError :: py_error + (unit \<times> unit)) ''AX'' None None)
     = Inr [Some (9/5), None]"
  by (simp add: data_generator_vals_def py_max_def py_min_def)

lemma py_max_nonempty: "xs \<noteq> [] \<Longrightarrow> \<exists>v. py_max xs = Inr v"
  by (cases xs) (simp_all add: py_max_def)

lemma py_min_nonempty: "xs \<noteq> [] \<Longrightarrow> \<exists>v. py_min xs = Inr v"
  by (cases xs) (simp_all add: py_min_def)

lemma map_of_missing: "k \<notin> fst ` set t \<Longrightarrow> map_of t k = None"
  by (simp add: map_of_eq_None_iff)

text \<open>
  Claim C4, amended. With non-empty tables of hydrophobicity, SASA and side-chain
  length (their maxima are taken), and no alignment or an alignment that loads,
  \<open>data_generator_vals\<close> returns for every wild-type sequence; each per-residue vector
  is the element-wise \<^verbatim>\<open>get\<close> through its table, and a letter that is missing
  from a table is encoded as \<open>None\<close> at its position in the vector of that table.
\<close>

theorem data_generator_vals_unknown_letter_none:
  fixes alignment_table :: "string \<Rightarrow> string option \<Rightarrow> py_error + ('ct \<times> 'cr)"
  assumes hy: "hydrophobicity tables \<noteq> []" and sa: "sasa tables \<noteq> []"
    and sc: "side_chain_length tables \<noteq> []"
    and al: "alignment_path = None
             \<or> (\<exists>res. alignment_table (the alignment_path) alignment_base = Inr res)"
  shows "\<exists>r. data_generator_vals tables alignment_table wt_seq alignment_path alignment_base = Inr r
       \<and> hm_converted r = map (map_of (h_bonding tables)) wt_seq
       \<and> hp_converted r = map (map_of (hydrophobicity tables)) wt_seq
       \<and> cm_converted r = map (map_of (charge tables)) wt_seq
       \<and> ia_converted r = map (map_of (sasa tables)) wt_seq
       \<and> cl_converted r = map (map_of (side_chain_length tables)) wt_seq
       \<and> (\<forall>i < length wt_seq.
             (wt_seq ! i \<notin> fst ` set (h_bonding tables) \<longrightarrow> hm_converted r ! i = None)
           \<and> (wt_seq ! i \<notin> fst ` set (hydrophobicity tables) \<longrightarrow> hp_converted r ! i = None)
           \<and> (wt_seq ! i \<notin> fst ` set (charge tables) \<longrightarrow> cm_converted r ! i = None)
           \<and> (wt_seq ! i \<notin> fst ` set (sasa tables) \<longrightarrow> ia_converted r ! i = None)
           \<and> (wt_seq ! i \<notin> fst ` set (side_chain_length tables) \<longrightarrow> cl_converted r ! i = None))"
proof -
  obtain h_max where a: "py_max (map snd (hydrophobicity tables)) = Inr h_max"
    using py_max_nonempty[of "map snd (hydrophobicity tables)"] hy by auto
  obtain h_min where b: "py_min (map snd (hydrophobicity tables)) = Inr h_min"
    using py_min_nonempty[of "map snd (hydrophobicity tables)"] hy by auto
  obtain s_max where c: "py_max (map snd (sasa tables)) = Inr s_max"
    using py_max_nonempty[of "map snd (sasa tables)"] sa by auto
  obtain c_max where d: "py_max (map snd (side_chain_length tables)) = Inr c_max"
    using py_max_nonempty[of "map snd (side_chain_length tables)"] sc by auto
  from al show ?thesis
  proof
    assume "alignment_path = None"
    then show ?thesis
      by (simp add: data_generator_vals_def a b c d map_of_missing)
  next
    assume "\<exists>res. alignment_table (the alignment_path) alignment_base = Inr res"
    then obtain t rows where res: "alignment_table (the alignment_path) alignment_base = Inr (t, rows)"
      by auto
    show ?thesis
    proof (cases alignment_path)
      case None
      then show ?thesis
        by (simp add: data_generator_vals_def a b c d map_of_missing)
    next
      case (Some path)
      with res have "alignment_table path alignment_base = Inr (t, rows)" by simp
      with Some show ?thesis
        by (simp add: data_generator_vals_def a b c d map_of_missing)
    qed
  qed
qed

theorem data_generator_vals_unknown_letter_none_witness:
  "\<exists>r. data_generator_vals
          \<lparr> hydrophobicity = [(CHR ''A'', 9/5), (CHR ''V'', 21/5)],
            h_bonding = [(CHR ''A'', 0), (CHR ''V'', 0)],
            charge = [(CHR ''A'', 0), (CHR ''V'', 0)],
            sasa = [(CHR ''A'', 75), (CHR ''V'', 125)],
            side_chain_length = [(CHR ''A'', 3/2), (CHR ''V'', 5/2)],
            aa_dict_pos = [(CHR ''A'', 0), (CHR ''V'', 1)] \<rparr>
          (\<lambda>path base. Inl ExternalError :: py_error + (unit \<times> unit)) ''AX'' None None = Inr r
      \<and> hm_converted r ! 1 = None \<and> hp_converted r ! 1 = None \<and> cm_converted r ! 1 = None
      \<and> ia_converted r ! 1 = None \<and> cl_converted r ! 1 = None"
proof -
  let ?T = "\<lparr> hydrophobicity = [(CHR ''A'', 9/5), (CHR ''V'', 21/5)],
            h_bonding = [(CHR ''A'', 0), (CHR ''V'', 0)],
            charge = [(CHR ''A'', 0), (CHR ''V'', 0)],
            sasa = [(CHR ''A'', 75), (CHR ''V'', 125)],
            side_chain_length = [(CHR ''A'', 3/2), (CHR ''V'', 5/2)],
            aa_dict_pos = [(CHR ''A'', 0), (CHR ''V'', 1)] \<rparr>"
  let ?al = "\<lambda>path base. Inl ExternalError :: py_error + (unit \<times> unit)"
  have h1: "hydrophobicity ?T \<noteq> []" and h2: "sasa ?T \<noteq> []" and h3: "side_chain_length ?T \<noteq> []"
    by simp_all
  have h4: "(None :: string option) = None \<or> (\<exists>res. ?al (the None) None = Inr res)" by simp
  from data_generator_vals_unknown_letter_none[of ?T None ?al None "''AX''", OF h1 h2 h3 h4]
  obtain r where r: "data_generator_vals ?T ?al ''AX'' None None = Inr r"
    and un: "\<forall>i < length ''AX''.
             (''AX'' ! i \<notin> fst ` set (h_bonding ?T) \<longrightarrow> hm_converted r ! i = None)
           \<and> (''AX'' ! i \<notin> fst ` set (hydrophobicity ?T) \<longrightarrow> hp_converted r ! i = None)
           \<and> (''AX'' ! i \<notin> fst ` set (charge ?T) \<longrightarrow> cm_converted r ! i = None)
           \<and> (''AX'' ! i \<notin> fst ` set (sasa ?T) \<longrightarrow> ia_converted r ! i = None)
           \<and> (''AX'' ! i \<notin> fst ` set (side_chain_length ?T) \<longrightarrow> cl_converted r ! i = None)"
    by blast
  have "1 < length ''AX''" by simp
  with un have "(''AX'' ! 1 \<notin> fst ` set (h_bonding ?T) \<longrightarrow> hm_converted r ! 1 = None)
           \<and> (''AX'' ! 1 \<notin> fst ` set (hydrophobicity ?T) \<longrightarrow> hp_converted r ! 1 = None)
           \<and> (''AX'' ! 1 \<notin> fst ` set (charge ?T) \<longrightarrow> cm_converted r ! 1 = None)
           \<and> (''AX'' ! 1 \<notin> fst ` set (sasa ?T) \<longrightarrow> ia_converted r ! 1 = None)
           \<and> (''AX'' ! 1 \<notin> fst ` set (side_chain_length ?T) \<longrightarrow> cl_converted r ! 1 = None)"
    by blast
  then have "hm_converted r ! 1 = None \<and> hp_converted r ! 1 = None \<and> cm_converted r ! 1 = None
      \<and> ia_converted r ! 1 = None \<and> cl_converted r ! 1 = None"
    by simp
  with r show ?thesis by blast
qed


section \<open>The batch generator\<close>

text \<open>
  \<^verbatim>\<open>__getitem__\<close> never reads \<open>idx\<close>: the batch is the same before and after
  \<^verbatim>\<open>on_epoch_end\<close>.
\<close>

lemma getitem_on_epoch_end:
  "DataGenerator_getitem encode fits (on_epoch_end shuffled self) i
     = DataGenerator_getitem encode fits self i"
  by (simp add: DataGenerator_getitem_def on_epoch_end_def batch_variants_def Let_def
      split: sum.split prod.split)

text \<open>
  Claim C2, on the code: a generator of four samples with batch size 2 and shuffling
  enabled. After \<^verbatim>\<open>on_epoch_end\<close>, whose shuffle leaves the order 3, 2, 1, 0 in
  \<open>idx\<close>, batch 0 still holds the samples 0 and 1 of the construction order, not the
  samples 3 and 2 of the epoch order.
\<close>

theorem DataGenerator_getitem_ignores_epoch_order:
  "idx (on_epoch_end [3, 2, 1, 0]
         \<lparr> features = [''A1G'', ''V2L'', ''L3I'', ''I4A''], labels_g = [10, 20, 30, 40 :: int],
           interaction_matrix = [], dim_g = (0, 0), n_channels = 6, batch_size = 2, first_ind = 1,
           hm_converted_g = [], hm_pos_vals_g = [], factor = [], hp_converted_g = [],
           hp_norm_g = 0, cm_converted_g = [], ia_converted_g = [], ia_norm_g = 0,
           mat_index_g = [], cl_converted_g = [], cl_norm_g = 0, dist_mat = [], dist_th = 0,
           co_converted_g = None, co_table_g = (None :: unit option),
           co_rows_g = (None :: unit option), shuffle = True, train = True, idx = None \<rparr>)
     = Some [3, 2, 1, 0]
   \<and> DataGenerator_getitem (\<lambda>v. Inr v) (\<lambda>d c t. True)
       (on_epoch_end [3, 2, 1, 0]
         \<lparr> features = [''A1G'', ''V2L'', ''L3I'', ''I4A''], labels_g = [10, 20, 30, 40 :: int],
           interaction_matrix = [], dim_g = (0, 0), n_channels = 6, batch_size = 2, first_ind = 1,
           hm_converted_g = [], hm_pos_vals_g = [], factor = [], hp_converted_g = [],
           hp_norm_g = 0, cm_converted_g = [], ia_converted_g = [], ia_norm_g = 0,
           mat_index_g = [], cl_converted_g = [], cl_norm_g = 0, dist_mat = [], dist_th = 0,
           co_converted_g = None, co_table_g = (None :: unit option),
           co_rows_g = (None :: unit option), shuffle = True, train = True, idx = None \<rparr>) 0
     = Inr (Features_Labels [Some ''A1G'', Some ''V2L''] [Some 10, Some 20])"
  by (simp add: DataGenerator_getitem_def on_epoch_end_def batch_variants_def py_slice_def Let_def)

text \<open>
  Claim C3, as stated, fails: construction with \<open>dim = (3, 3)\<close> for a contact mask of
  shape \<open>(2, 2)\<close> and with 5 channels returns a generator that holds these values.
\<close>

theorem DataGenerator_init_unchecked_counterexample:
  "DataGenerator_init [''A1G''] [1 :: int] [[False, True], [True, False]] (3, 3) 5 32 1
       [] [] [] [] 0 [] [] 0 [] [] 0 [] 0 None (None :: unit option) (None :: unit option) True True
     = Inr \<lparr> features = [''A1G''], labels_g = [1],
           interaction_matrix = [[False, True], [True, False]], dim_g = (3, 3), n_channels = 5,
           batch_size = 32, first_ind = 1,
           hm_converted_g = [], hm_pos_vals_g = [], factor = [], hp_converted_g = [],
           hp_norm_g = 0, cm_converted_g = [], ia_converted_g = [], ia_norm_g = 0,
           mat_index_g = [], cl_converted_g = [], cl_norm_g = 0, dist_mat = [], dist_th = 0,
           co_converted_g = None, co_table_g = None, co_rows_g = None,
           shuffle = True, train = True, idx = None \<rparr>
   \<and> np_shape [[False, True], [True, False]] = (2, 2)"
  by (simp add: DataGenerator_init_def np_shape_def ncols_def)

text \<open>
  Claim C3, amended. Construction validates nothing: for all arguments it returns a
  generator, which holds \<open>dim\<close>, \<open>n_channels\<close> and the contact mask as they were given.
\<close>

theorem DataGenerator_init_stores_unchecked:
  "\<exists>self. DataGenerator_init features' labels' interaction_matrix' dim' n_channels' batch_size'
       first_ind' hm_converted' hm_pos_vals' factor' hp_converted' hp_norm' cm_converted'
       ia_converted' ia_norm' mat_index' cl_converted' cl_norm' dist_mat' dist_th'
       co_converted' co_table' co_rows' shuffle' train' = Inr self
     \<and> dim_g self = dim' \<and> n_channels self = n_channels'
     \<and> interaction_matrix self = interaction_matrix'"
  by (simp add: DataGenerator_init_def)








section \<open>augment and the arrays of its caller\<close>

lemma frame_bind:
  assumes "frame n m Q" and "\<And>x. Q x \<Longrightarrow> frame n (f x) R"
  shows "frame n (bind_st m f) R"
  unfolding frame_def
proof (intro allI impI)
  fix s y s''
  assume a: "n \<le> length s \<and> bind_st m f s = Inr (y, s'')"
  then obtain x s' where m: "m s = Inr (x, s')" and f: "f x s' = Inr (y, s'')"
    by (auto simp: bind_st_def split: sum.splits)
  from assms(1) a m have 1: "n \<le> length s'" "take n s' = take n s" "Q x"
    unfolding frame_def by blast+
  from assms(2)[OF 1(3)] 1(1) f have "n \<le> length s''" "take n s'' = take n s'" "R y"
    unfolding frame_def by blast+
  with 1(2) show "n \<le> length s'' \<and> take n s'' = take n s \<and> R y" by simp
qed

lemma frame_new: "frame n (st_new c) (\<lambda>a. n \<le> a)"
  by (auto simp: frame_def st_new_def)

lemma frame_arange_len: "frame n (st_arange_len a) (\<lambda>a. n \<le> a)"
  by (auto simp: frame_def st_arange_len_def st_new_def)

lemma frame_take: "frame n (st_take a i) (\<lambda>a. n \<le> a)"
  by (auto simp: frame_def st_take_def st_new_def split: sum.splits)

lemma frame_add: "frame n (st_add a b) (\<lambda>a. n \<le> a)"
  by (auto simp: frame_def st_add_def st_new_def split: sum.splits)

lemma frame_delete: "frame n (st_delete a d) (\<lambda>a. n \<le> a)"
  by (auto simp: frame_def st_delete_def st_new_def split: sum.splits)

lemma frame_asarray: "frame n (st_asarray a) (\<lambda>a. n \<le> a)"
  by (auto simp: frame_def st_asarray_def st_new_def)

lemma frame_unique_index: "frame n (st_unique_index a) (\<lambda>a. n \<le> a)"
  by (auto simp: frame_def st_unique_index_def st_new_def split: cell.splits)

lemma frame_shuffle: "n \<le> a \<Longrightarrow> frame n (st_shuffle a p) (\<lambda>_. True)"
  by (auto simp: frame_def st_shuffle_def)

lemma frame_extend: "n \<le> a \<Longrightarrow> frame n (st_extend a b) (\<lambda>_. True)"
  by (auto simp: frame_def st_extend_def split: sum.splits)

lemma frame_pair_loop:
  "n \<le> new_data \<Longrightarrow> n \<le> to_del \<Longrightarrow>
   frame n (st_pair_loop new_mutations data dp new_data to_del) (\<lambda>_. True)"
  by (auto simp: frame_def st_pair_loop_def split: sum.splits cell.splits)

lemma frame_return: "frame n (\<lambda>s. Inr (x, s)) (\<lambda>_. True)"
  by (simp add: frame_def)

lemma frame_if:
  "(un \<Longrightarrow> frame n a R) \<Longrightarrow> (\<not> un \<Longrightarrow> frame n b R) \<Longrightarrow> frame n (if un then a else b) R"
  by simp

lemma frame_augment_run:
  assumes "n \<le> pos_inds" "n \<le> nd" "n \<le> nl" "n \<le> nm"
  shows "frame n (augment_run_st data labels mutations pos_inds nd nl nm shuffled) (\<lambda>_. True)"
  unfolding augment_run_st_def
  by (rule frame_bind frame_new frame_take frame_add frame_delete frame_asarray
        frame_shuffle frame_extend frame_pair_loop assms | assumption)+

lemma frame_runs_loop:
  assumes "n \<le> pos_inds" "n \<le> nd" "n \<le> nl" "n \<le> nm"
  shows "frame n (runs_loop_st data labels mutations pos_inds nd nl nm ps) (\<lambda>_. True)"
proof (induction ps)
  case Nil
  show ?case by (simp add: frame_return)
next
  case (Cons p ps)
  show ?case
    unfolding runs_loop_st.simps
    by (rule frame_bind[OF frame_augment_run[OF assms]]) (rule Cons.IH)
qed

lemma frame_augment:
  "frame n (augment_st data labels mutations runs un rng) (\<lambda>_. True)"
  unfolding augment_st_def
  by (rule frame_bind frame_new frame_take frame_asarray frame_arange_len frame_unique_index
        frame_runs_loop frame_if frame_return | assumption)+

text \<open>
  On every store in which the pure function returns, the function on the store returns
  as well, and the cells at the returned addresses hold the arrays that the pure
  function computes.
\<close>

lemma augment_run_st_values:
  fixes s :: "'l::plus store"
  assumes cd: "s ! data = Str_array dv" and cl: "s ! labels = Label_array lv"
    and cm: "s ! mutations = Int_array mv"
    and cnd: "s ! nd = Str_array ndv" and cnl: "s ! nl = Label_array nlv"
    and cnm: "s ! nm = Int_array nmv"
    and bounds: "data < length s" "labels < length s" "mutations < length s"
      "pos_inds < length s" "nd < length s" "nl < length s" "nm < length s"
    and neq: "pos_inds \<noteq> data" "pos_inds \<noteq> labels" "pos_inds \<noteq> mutations"
      "pos_inds \<noteq> nd" "pos_inds \<noteq> nl" "pos_inds \<noteq> nm"
      "nd \<noteq> data" "nd \<noteq> labels" "nd \<noteq> mutations" "nd \<noteq> nl" "nd \<noteq> nm"
      "nl \<noteq> data" "nl \<noteq> labels" "nl \<noteq> mutations" "nl \<noteq> nm"
      "nm \<noteq> data" "nm \<noteq> labels" "nm \<noteq> mutations"
    and run: "augment_run dv lv mv p = Inr (rd, rl, rm)"
  shows "\<exists>s'. augment_run_st data labels mutations pos_inds nd nl nm p s = Inr ((), s')
           \<and> length s \<le> length s'
           \<and> s' ! data = s ! data \<and> s' ! labels = s ! labels \<and> s' ! mutations = s ! mutations
           \<and> s' ! nd = Str_array (ndv @ rd) \<and> s' ! nl = Label_array (nlv @ rl)
           \<and> s' ! nm = Int_array (nmv @ rm)"
proof -
  from run obtain lp new_labels mp new_mutations dp new_data to_del where
    1: "np_take lv p = Inr lp" and 2: "np_add lv lp = Inr new_labels"
    and 3: "np_take mv p = Inr mp" and 4: "np_add mv mp = Inr new_mutations"
    and 5: "np_take dv p = Inr dp"
    and 6: "pair_loop new_mutations 0 (zip dv dp) [] [] = Inr (new_data, to_del)"
    and 7: "np_delete new_labels to_del = Inr rl"
    and 8: "np_delete new_mutations to_del = Inr rm"
    and 9: "np_delete new_data to_del = Inr rd"
    unfolding augment_run_def by (auto split: sum.splits prod.splits)
  show ?thesis
    using cd cl cm cnd cnl cnm bounds neq
    by (simp add: augment_run_st_def bind_st_def st_shuffle_def st_take_def st_add_def
          st_new_def st_pair_loop_def st_delete_def st_asarray_def st_extend_def
          cell_take_def cell_add_def cell_delete_def cell_extend_def
          1 2 3 4 5 6 7 8 9 nth_append nth_list_update)
qed

lemma runs_loop_st_values:
  fixes s :: "'l::plus store"
  assumes neq: "pos_inds \<noteq> data" "pos_inds \<noteq> labels" "pos_inds \<noteq> mutations"
      "pos_inds \<noteq> nd" "pos_inds \<noteq> nl" "pos_inds \<noteq> nm"
      "nd \<noteq> data" "nd \<noteq> labels" "nd \<noteq> mutations" "nd \<noteq> nl" "nd \<noteq> nm"
      "nl \<noteq> data" "nl \<noteq> labels" "nl \<noteq> mutations" "nl \<noteq> nm"
      "nm \<noteq> data" "nm \<noteq> labels" "nm \<noteq> mutations"
  shows "s ! data = Str_array dv \<Longrightarrow> s ! labels = Label_array lv \<Longrightarrow>
    s ! mutations = Int_array mv \<Longrightarrow>
    s ! nd = Str_array ndv \<Longrightarrow> s ! nl = Label_array nlv \<Longrightarrow> s ! nm = Int_array nmv \<Longrightarrow>
    data < length s \<Longrightarrow> labels < length s \<Longrightarrow> mutations < length s \<Longrightarrow>
    pos_inds < length s \<Longrightarrow> nd < length s \<Longrightarrow> nl < length s \<Longrightarrow> nm < length s \<Longrightarrow>
    runs_loop dv lv mv ps ndv nlv nmv = Inr (rd, rl, rm) \<Longrightarrow>
    \<exists>s'. runs_loop_st data labels mutations pos_inds nd nl nm ps s = Inr ((), s')
           \<and> length s \<le> length s'
           \<and> s' ! data = s ! data \<and> s' ! labels = s ! labels \<and> s' ! mutations = s ! mutations
           \<and> s' ! nd = Str_array rd \<and> s' ! nl = Label_array rl \<and> s' ! nm = Int_array rm"
proof (induction ps arbitrary: s ndv nlv nmv)
  case Nil
  then show ?case by simp
next
  case (Cons p ps)
  from Cons.prems(14) obtain d1 l1 m1 where
    run: "augment_run dv lv mv p = Inr (d1, l1, m1)"
    and rest: "runs_loop dv lv mv ps (ndv @ d1) (nlv @ l1) (nmv @ m1) = Inr (rd, rl, rm)"
    by (auto split: sum.splits prod.splits)
  from augment_run_st_values[OF Cons.prems(1-13) neq run]
  obtain s1 where s1: "augment_run_st data labels mutations pos_inds nd nl nm p s = Inr ((), s1)"
    and len: "length s \<le> length s1"
    and keep: "s1 ! data = s ! data" "s1 ! labels = s ! labels" "s1 ! mutations = s ! mutations"
    and acc: "s1 ! nd = Str_array (ndv @ d1)" "s1 ! nl = Label_array (nlv @ l1)"
      "s1 ! nm = Int_array (nmv @ m1)"
    by blast
  have c1: "s1 ! data = Str_array dv" "s1 ! labels = Label_array lv" "s1 ! mutations = Int_array mv"
    using keep Cons.prems(1-3) by simp_all
  have b1: "data < length s1" "labels < length s1" "mutations < length s1"
    "pos_inds < length s1" "nd < length s1" "nl < length s1" "nm < length s1"
    using len Cons.prems(7-13) by simp_all
  from Cons.IH[OF c1 acc b1 rest]
  obtain s' where s': "runs_loop_st data labels mutations pos_inds nd nl nm ps s1 = Inr ((), s')"
    and len': "length s1 \<le> length s'"
    and keep': "s' ! data = s1 ! data" "s' ! labels = s1 ! labels" "s' ! mutations = s1 ! mutations"
    and acc': "s' ! nd = Str_array rd" "s' ! nl = Label_array rl" "s' ! nm = Int_array rm"
    by blast
  have "runs_loop_st data labels mutations pos_inds nd nl nm (p # ps) s = Inr ((), s')"
    by (simp add: bind_st_def s1 s')
  then show ?case
    using len len' keep keep' acc' by simp
qed

lemma augment_st_values:
  fixes s :: "'l::plus store"
  assumes cd: "s ! data = Str_array dv" and cl: "s ! labels = Label_array lv"
    and cm: "s ! mutations = Int_array mv"
    and bounds: "data < length s" "labels < length s" "mutations < length s"
    and ret: "augment dv lv mv runs un rng = Inr (d', l', m')"
  shows "\<exists>rd rl rm s'. augment_st data labels mutations runs un rng s = Inr ((rd, rl, rm), s')
           \<and> s' ! rd = Str_array d' \<and> s' ! rl = Label_array l' \<and> s' ! rm = Int_array m'"
proof -
  let ?ps = "map rng [0..<nat runs]"
  let ?n = "length s"
  let ?s4 = "s @ [Index_array [0..<length lv], Str_array [], Label_array [], Int_array []]"
  from ret obtain nd nl nm where
    loop: "runs_loop dv lv mv ?ps [] [] [] = Inr (nd, nl, nm)"
    unfolding augment_def by (auto split: sum.splits prod.splits)
  have neq: "?n \<noteq> data" "?n \<noteq> labels" "?n \<noteq> mutations"
      "?n \<noteq> Suc ?n" "?n \<noteq> Suc (Suc ?n)" "?n \<noteq> Suc (Suc (Suc ?n))"
      "Suc ?n \<noteq> data" "Suc ?n \<noteq> labels" "Suc ?n \<noteq> mutations" "Suc ?n \<noteq> Suc (Suc ?n)" "Suc ?n \<noteq> Suc (Suc (Suc ?n))"
      "Suc (Suc ?n) \<noteq> data" "Suc (Suc ?n) \<noteq> labels" "Suc (Suc ?n) \<noteq> mutations" "Suc (Suc ?n) \<noteq> Suc (Suc (Suc ?n))"
      "Suc (Suc (Suc ?n)) \<noteq> data" "Suc (Suc (Suc ?n)) \<noteq> labels" "Suc (Suc (Suc ?n)) \<noteq> mutations"
    using bounds by simp_all
  have c4: "?s4 ! data = Str_array dv" "?s4 ! labels = Label_array lv" "?s4 ! mutations = Int_array mv"
    "?s4 ! (Suc ?n) = Str_array []" "?s4 ! (Suc (Suc ?n)) = Label_array []" "?s4 ! (Suc (Suc (Suc ?n))) = Int_array []"
    using cd cl cm bounds by (simp_all add: nth_append)
  have b4: "data < length ?s4" "labels < length ?s4" "mutations < length ?s4"
    "?n < length ?s4" "Suc ?n < length ?s4" "Suc (Suc ?n) < length ?s4" "Suc (Suc (Suc ?n)) < length ?s4"
    using bounds by simp_all
  from runs_loop_st_values[OF neq c4 b4 loop]
  obtain s5 where s5: "runs_loop_st data labels mutations ?n (Suc ?n) (Suc (Suc ?n)) (Suc (Suc (Suc ?n))) ?ps ?s4
        = Inr ((), s5)"
    and len: "length ?s4 \<le> length s5"
    and acc: "s5 ! (Suc ?n) = Str_array nd" "s5 ! (Suc (Suc ?n)) = Label_array nl"
      "s5 ! (Suc (Suc (Suc ?n))) = Int_array nm"
    by blast
  have start: "augment_st data labels mutations runs un rng s =
      bind_st (runs_loop_st data labels mutations ?n (Suc ?n) (Suc (Suc ?n)) (Suc (Suc (Suc ?n))) ?ps) (\<lambda>_.
       if un then
         bind_st (st_unique_index (Suc ?n)) (\<lambda>uni.
         bind_st (st_asarray (Suc ?n)) (\<lambda>nd_arr.
         bind_st (st_take nd_arr uni) (\<lambda>nd'.
         bind_st (st_asarray (Suc (Suc ?n))) (\<lambda>nl_arr.
         bind_st (st_take nl_arr uni) (\<lambda>nl'.
         bind_st (st_asarray (Suc (Suc (Suc ?n)))) (\<lambda>nm_arr.
         bind_st (st_take nm_arr uni) (\<lambda>nm'.
         (\<lambda>s. Inr ((nd', nl', nm'), s)))))))))
       else
         bind_st (st_asarray (Suc ?n)) (\<lambda>nd'.
         bind_st (st_asarray (Suc (Suc ?n))) (\<lambda>nl'.
         bind_st (st_asarray (Suc (Suc (Suc ?n)))) (\<lambda>nm'.
         (\<lambda>s. Inr ((nd', nl', nm'), s)))))) ?s4"
    using cl by (simp add: augment_st_def bind_st_def st_arange_len_def st_new_def cell_len_def)
  have n5: "Suc ?n < length s5" "Suc (Suc ?n) < length s5" "Suc (Suc (Suc ?n)) < length s5"
    using len by simp_all
  show ?thesis
  proof (cases un)
    case False
    with ret loop have res: "d' = nd" "l' = nl" "m' = nm"
      by (simp_all add: augment_def)
    show ?thesis
      unfolding start using False acc n5
      by (simp add: bind_st_def s5 st_asarray_def st_new_def nth_append res)
  next
    case True
    with ret loop have t: "np_take nd (np_unique_index nd) = Inr d'"
      "np_take nl (np_unique_index nd) = Inr l'" "np_take nm (np_unique_index nd) = Inr m'"
      by (auto simp: augment_def Let_def split: sum.splits)
    show ?thesis
      unfolding start using True acc n5
      by (simp add: bind_st_def s5 st_asarray_def st_new_def st_unique_index_def st_take_def
            cell_take_def nth_append t)
  qed
qed

text \<open>
  Claim C9. The three input arrays live in the store at the addresses \<open>data\<close>,
  \<open>labels\<close> and \<open>mutations\<close>. Whenever the call returns, the store after the call
  holds at these addresses what it held before: every write of augment goes to a cell
  that augment itself allocated.
\<close>

theorem augment_st_inputs_unchanged:
  fixes s :: "'l::plus store"
  assumes d: "data < length s" and l: "labels < length s" and m: "mutations < length s"
    and ret: "augment_st data labels mutations runs un rng s = Inr (res, s')"
  shows "s' ! data = s ! data \<and> s' ! labels = s ! labels \<and> s' ! mutations = s ! mutations"
proof -
  have "take (length s) s' = take (length s) s"
    using frame_augment[of "length s" data labels mutations runs un rng] ret
    unfolding frame_def by blast
  then have "take (length s) s' ! a = s ! a" if "a < length s" for a
    by simp
  then have "s' ! a = s ! a" if "a < length s" for a
    using that by (metis nth_take)
  with d l m show ?thesis by simp
qed

theorem augment_st_inputs_unchanged_witness:
  "\<exists>res s'.
     augment_st 0 1 2 1 True (\<lambda>_. [1, 0])
       [Str_array [''S1A'', ''D35T''], Label_array [1, 2 :: int], Int_array [1, 1]] = Inr (res, s')
   \<and> s' ! 0 = Str_array [''S1A'', ''D35T''] \<and> s' ! 1 = Label_array [1, 2]
   \<and> s' ! 2 = Int_array [1, 1]"
proof -
  let ?s = "[Str_array [''S1A'', ''D35T''], Label_array [1, 2 :: int], Int_array [1, 1]]"
  have "\<not> isl (augment_st 0 1 2 1 True (\<lambda>_. [1, 0]) ?s)"
    by code_simp
  then obtain res s' where ret: "augment_st 0 1 2 1 True (\<lambda>_. [1, 0]) ?s = Inr (res, s')"
    by (cases "augment_st 0 1 2 1 True (\<lambda>_. [1, 0]) ?s") auto
  have "s' ! 0 = ?s ! 0 \<and> s' ! 1 = ?s ! 1 \<and> s' ! 2 = ?s ! 2"
    by (rule augment_st_inputs_unchanged[OF _ _ _ ret]) simp_all
  then have "s' ! 0 = Str_array [''S1A'', ''D35T''] \<and> s' ! 1 = Label_array [1, 2]
      \<and> s' ! 2 = Int_array [1, 1]"
    by simp
  with ret show ?thesis by (intro exI[of _ res] exI[of _ s'] conjI) simp_all
qed

end
